theory Spec2Isabelle
  imports Complex_Main
begin

section \<open>Schaap-To-SHETRAN-1Layer: the conversion pipeline\<close>

text \<open>
  The script is one straight-line pipeline: locate five soil-parameter rasters, read the
  grid size from the first one, number the cells, load the five rasters, flatten them,
  reduce the cells to supercategories by their \<open>VG_ThetaS\<close> value and write three text
  files. Each statement of the script that can raise is a branch of the model, and the
  files written so far are threaded through as an explicit store.

  A raster value is the real number its finite double denotes; the one arithmetic
  operation of the script, the multiplication of line 120, is rounded as binary64 rounds
  it. The grids hold finite numbers and the no-data value \<open>-999\<close>; NaN and the
  infinities are outside the model.
\<close>

subsection \<open>Values and errors\<close>

text \<open>
  The exceptions Python raises in the script. \<open>FormatError\<close> is raised only by the raster
  reader, which is described by the specification alone; \<open>ConfigurationError\<close> is named
  by the specification and raised by no statement of the script.
\<close>

datatype error =
    IndexError
  | NameError
  | ValueError
  | OSError
  | FormatError
  | ConfigurationError

text \<open>The values that occur in lists, Series and DataFrame cells.\<close>

datatype pyval = PyNone | PyInt int | PyFloat real | PyStr string

definition and_then :: "error + 'a \<Rightarrow> ('a \<Rightarrow> error + 'b) \<Rightarrow> error + 'b" where
  "and_then r f = (case r of Inl e \<Rightarrow> Inl e | Inr x \<Rightarrow> f x)"

text \<open>\<open>xs[i]\<close> for a non-negative literal index: IndexError when out of range.\<close>

definition getitem :: "'a list \<Rightarrow> nat \<Rightarrow> error + 'a" where
  "getitem xs i = (if i < length xs then Inr (xs ! i) else Inl IndexError)"

subsection \<open>User-defined variables (lines 42-48)\<close>

definition DirectoryOut :: string where
  "DirectoryOut = ''C:/Users/DH/Downloads/''"

definition SuperCatsOut :: string where
  "SuperCatsOut = ''SoilCats_3Layer''"

definition SoilPropertiesOut :: string where
  "SoilPropertiesOut = ''SoilProperties_3Layer''"

definition SoilDetailsOut :: string where
  "SoilDetailsOut = ''SoilDetails_3Layer''"

definition SuperCats_path :: string where
  "SuperCats_path = DirectoryOut @ SuperCatsOut @ ''.txt''"

definition SoilProperties_path :: string where
  "SoilProperties_path = DirectoryOut @ SoilPropertiesOut @ ''.txt''"

definition SoilDetails_path :: string where
  "SoilDetails_path = DirectoryOut @ SoilDetailsOut @ ''.txt''"

subsection \<open>The environment of a run\<close>

text \<open>
  An ASC file is represented by what the script takes from it. \<open>header_scan\<close> is the
  outcome of opening the file and scanning its lines for \<open>ncols\<close> and \<open>nrows\<close>
  (lines 70-88): the pair \<open>(Ncols, Nrows)\<close>, or the exception these lines can raise:
  OSError from \<open>open\<close> and \<open>readlines\<close>, ValueError from \<open>int\<close> (or from decoding the
  file), IndexError from \<open>[0]\<close> on a line without a number, and the NameError of line 94
  when one of the two names was never bound. \<open>raster\<close> is the data section, one list per
  line.
\<close>

datatype scan_error = ScanOSError | ScanValueError | ScanIndexError | ScanNameError

fun raised :: "scan_error \<Rightarrow> error" where
  "raised ScanOSError = OSError"
| "raised ScanValueError = ValueError"
| "raised ScanIndexError = IndexError"
| "raised ScanNameError = NameError"

record asc_file =
  header_scan :: "scan_error + int \<times> int"
  raster :: "real list list"

definition scan_header :: "asc_file \<Rightarrow> error + int \<times> int" where
  "scan_header f = (case header_scan f of Inl s \<Rightarrow> Inl (raised s) | Inr v \<Rightarrow> Inr v)"

text \<open>
  \<open>PathList\<close> is the list \<open>glob.glob\<close> returns (line 65), \<open>asc\<close> the file behind each
  path, \<open>writable\<close> says for which paths \<open>to_csv\<close> can open its target.
\<close>

record env =
  PathList :: "string list"
  asc :: "string \<Rightarrow> asc_file"
  writable :: "string \<Rightarrow> bool"

text \<open>
  A written file: the separator, the header names when a header is written, the data rows.
  The cells are kept as values; how \<open>to_csv\<close> prints a float is not modelled. None of the
  column names contains the separator or a quote, so the header is written unquoted.
\<close>

record text_file =
  sep :: string
  header :: "string list option"
  rows :: "pyval list list"

type_synonym outputs = "string \<rightharpoonup> text_file"

text \<open>The header line as text: the column names joined by the separator.\<close>

fun join :: "string \<Rightarrow> string list \<Rightarrow> string" where
  "join s [] = []"
| "join s [x] = x"
| "join s (x # y # ys) = x @ s @ join s (y # ys)"

definition header_line :: "text_file \<Rightarrow> string option" where
  "header_line f = map_option (join (sep f)) (header f)"

text \<open>Reading a written table back: the values under a column name, top to bottom.\<close>

fun position :: "'a \<Rightarrow> 'a list \<Rightarrow> nat" where
  "position x [] = 0"
| "position x (y # ys) = (if x = y then 0 else Suc (position x ys))"

definition column :: "text_file \<Rightarrow> string \<Rightarrow> pyval list" where
  "column f name =
     (case header f of None \<Rightarrow> []
      | Some names \<Rightarrow> map (\<lambda>row. row ! position name names) (rows f))"

definition file_column :: "outputs \<Rightarrow> string \<Rightarrow> string \<Rightarrow> pyval list option" where
  "file_column out path name = map_option (\<lambda>f. column f name) (out path)"

definition no_files :: outputs where
  "no_files = Map.empty"

definition to_csv :: "env \<Rightarrow> outputs \<Rightarrow> string \<Rightarrow> text_file \<Rightarrow> error + outputs" where
  "to_csv e out path f = (if writable e path then Inr (out(path \<mapsto> f)) else Inl OSError)"

subsection \<open>Subcategory grid (lines 94-103)\<close>

text \<open>
  \<open>np.zeros([Nrows, Ncols])\<close> raises ValueError on a negative dimension; the two loops
  then store \<open>1 + Ncols * Row + Col\<close> in every cell.
\<close>

definition DfSubCats :: "int \<Rightarrow> int \<Rightarrow> error + int list list" where
  "DfSubCats Nrows Ncols =
     (if Nrows < 0 \<or> Ncols < 0 then Inl ValueError
      else Inr (map (\<lambda>Row. map (\<lambda>Col. 1 + (Ncols * Row) + Col) [0..Ncols - 1]) [0..Nrows - 1]))"

subsection \<open>Raster reader\<close>

text \<open>
  Modelled from the spec: \<open>ASCtoDfParam\<close> is imported from CustomFunctionsToSHETRAN.py,
  which is not among the sources. The specification (4.3) gives it the path and the expected
  \<open>(numRows, numCols)\<close>; it returns the data section as a 2D array of exactly that shape
  and fails with FormatError when the parsed dimensions differ.
\<close>

definition has_shape :: "'a list list \<Rightarrow> int \<Rightarrow> int \<Rightarrow> bool" where
  "has_shape g Nrows Ncols \<longleftrightarrow>
     int (length g) = Nrows \<and> list_all (\<lambda>row. int (length row) = Ncols) g"

definition ASCtoDfParam :: "env \<Rightarrow> string \<Rightarrow> int \<Rightarrow> int \<Rightarrow> error + real list list" where
  "ASCtoDfParam e Path Nrows Ncols =
     (let g = raster (asc e Path)
      in if has_shape g Nrows Ncols then Inr g else Inl FormatError)"

subsection \<open>Loading (lines 65-113)\<close>

record grids =
  nrows :: int
  ncols :: int
  DfVG_ThetaS :: "real list list"
  DfVG_ThetaR :: "real list list"
  DfVG_Ksat :: "real list list"
  DfVG_Alpha :: "real list list"
  DfVG_N :: "real list list"

definition load :: "env \<Rightarrow> error + grids" where
  "load e =
     and_then (getitem (PathList e) 0) (\<lambda>p0.
     and_then (scan_header (asc e p0)) (\<lambda>(Ncols, Nrows).
     and_then (DfSubCats Nrows Ncols) (\<lambda>_.
     and_then (ASCtoDfParam e p0 Nrows Ncols) (\<lambda>ThetaS.
     and_then (getitem (PathList e) 1) (\<lambda>p1.
     and_then (ASCtoDfParam e p1 Nrows Ncols) (\<lambda>ThetaR.
     and_then (getitem (PathList e) 2) (\<lambda>p2.
     and_then (ASCtoDfParam e p2 Nrows Ncols) (\<lambda>Ksat.
     and_then (getitem (PathList e) 3) (\<lambda>p3.
     and_then (ASCtoDfParam e p3 Nrows Ncols) (\<lambda>Alpha.
     and_then (getitem (PathList e) 4) (\<lambda>p4.
     and_then (ASCtoDfParam e p4 Nrows Ncols) (\<lambda>N.
       Inr \<lparr>nrows = Nrows, ncols = Ncols, DfVG_ThetaS = ThetaS, DfVG_ThetaR = ThetaR,
            DfVG_Ksat = Ksat, DfVG_Alpha = Alpha, DfVG_N = N\<rparr>))))))))))))"

subsection \<open>Flattening and unit conversion (lines 116-122)\<close>

text \<open>\<open>.values.flatten()\<close>: row-major.\<close>

definition flatten :: "'a list list \<Rightarrow> 'a list" where
  "flatten g = concat g"

text \<open>
  Line 120 multiplies in IEEE binary64 arithmetic. A finite double is read as the real
  number it denotes; the product of two doubles is the exact product rounded to the nearest
  double, ties going to the even significand. \<open>bit_length\<close> is Python's \<open>int.bit_length\<close>,
  \<open>exponent r\<close> the binary exponent of \<open>r\<close> (the largest \<open>e\<close> with \<open>2 ^ e \<le> \<bar>r\<bar>\<close>),
  and \<open>round_double\<close> rounds to a multiple of \<open>2 ^ (e - 52)\<close>: 53 significant bits, with
  the spacing of the smallest normal binade (exponent \<open>-1022\<close>) kept below it, so that
  subnormal results and underflow to zero are covered. Overflow is left out: multiplying a
  finite double by \<open>0.01\<close> cannot overflow. The sign of a zero is not represented.
\<close>

function bit_length :: "int \<Rightarrow> int" where
  "bit_length n = (if n \<le> 0 then 0 else 1 + bit_length (n div 2))"
  by pat_completeness auto
termination
  by (relation "measure nat") auto

declare bit_length.simps [simp del]

definition pow2 :: "int \<Rightarrow> real" where
  "pow2 k = (if 0 \<le> k then 2 ^ nat k else 1 / 2 ^ nat (- k))"

definition exponent :: "real \<Rightarrow> int" where
  "exponent r =
     (if 1 \<le> \<bar>r\<bar> then bit_length \<lfloor>\<bar>r\<bar>\<rfloor> - 1 else - bit_length (\<lceil>1 / \<bar>r\<bar>\<rceil> - 1))"

definition round_half_even :: "real \<Rightarrow> int" where
  "round_half_even x =
     (let f = \<lfloor>x\<rfloor>; d = x - of_int f
      in if d < 1 / 2 then f else if 1 / 2 < d then f + 1 else if even f then f else f + 1)"

definition round_double :: "real \<Rightarrow> real" where
  "round_double r =
     (if r = 0 then 0
      else let q = pow2 (max (exponent r) (- 1022) - 52)
           in of_int (round_half_even (r / q)) * q)"

text \<open>The literal \<open>0.01\<close> is the double nearest to 1/100, \<open>0x3F847AE147AE147B\<close>.\<close>

definition c001 :: real where
  "c001 = 5764607523034235 / 2 ^ 59"

text \<open>The lambda of line 120 and \<open>Series.apply\<close>, which maps it over the elements.\<close>

definition cm_to_m :: "real \<Rightarrow> real" where
  "cm_to_m x = (if x = - 999 then x else round_double (x * c001))"

definition Series_apply :: "('a \<Rightarrow> 'b) \<Rightarrow> 'a list \<Rightarrow> 'b list" where
  "Series_apply f xs = map f xs"

record series =
  VG_ThetaS :: "real list"
  VG_ThetaR :: "real list"
  VG_Ksat :: "real list"
  VG_Alpha :: "real list"
  VG_N :: "real list"

definition flatten_all :: "grids \<Rightarrow> series" where
  "flatten_all g =
     \<lparr>VG_ThetaS = flatten (DfVG_ThetaS g),
      VG_ThetaR = flatten (DfVG_ThetaR g),
      VG_Ksat = Series_apply cm_to_m (flatten (DfVG_Ksat g)),
      VG_Alpha = flatten (DfVG_Alpha g),
      VG_N = flatten (DfVG_N g)\<rparr>"

subsection \<open>Supercategories (lines 128-143)\<close>

text \<open>
  \<open>Series.unique()\<close>: one pass over the values with a table of those already seen; a
  value not seen before is appended, so the result keeps the order of first appearance.
\<close>

fun uniques_from :: "'a list \<Rightarrow> 'a list \<Rightarrow> 'a list" where
  "uniques_from seen [] = seen"
| "uniques_from seen (x # xs) =
     (if x \<in> set seen then uniques_from seen xs else uniques_from (seen @ [x]) xs)"

definition unique :: "'a list \<Rightarrow> 'a list" where
  "unique xs = uniques_from [] xs"

text \<open>\<open>to_dict()\<close> inserts the pairs in order; a later pair overwrites an equal key.\<close>

definition to_dict :: "('k \<times> 'v) list \<Rightarrow> ('k \<rightharpoonup> 'v)" where
  "to_dict kvs = fold (\<lambda>(k, v) m. m(k \<mapsto> v)) kvs Map.empty"

text \<open>Lines 128-130: the unique values, their positions as \<open>SubCats\<close>, and the dict.\<close>

definition VG_ThetaS_unique_dict :: "real list \<Rightarrow> (real \<rightharpoonup> nat)" where
  "VG_ThetaS_unique_dict ThetaS =
     (let VG_ThetaS_unique = unique ThetaS
      in to_dict (zip VG_ThetaS_unique [0..<length VG_ThetaS_unique]))"

text \<open>\<open>dict.get(key)\<close> returns None for a missing key.\<close>

definition dict_get :: "('k \<rightharpoonup> nat) \<Rightarrow> 'k \<Rightarrow> pyval" where
  "dict_get d k = (case d k of None \<Rightarrow> PyNone | Some v \<Rightarrow> PyInt (int v))"

text \<open>Lines 132-139.\<close>

definition SuperCats :: "real list \<Rightarrow> pyval list" where
  "SuperCats ThetaS = map (\<lambda>Value. dict_get (VG_ThetaS_unique_dict ThetaS) Value) ThetaS"

text \<open>
  \<open>reshape(Nrows, Ncols)\<close>: ValueError unless the sizes agree; otherwise the values are
  cut into \<open>Nrows\<close> consecutive rows of \<open>Ncols\<close> values. (A negative dimension never
  gets this far: \<open>np.zeros\<close> has raised on it at line 94.)
\<close>

fun split_rows :: "nat \<Rightarrow> nat \<Rightarrow> 'a list \<Rightarrow> 'a list list" where
  "split_rows 0 c xs = []"
| "split_rows (Suc r) c xs = take c xs # split_rows r c (drop c xs)"

definition reshape :: "'a list \<Rightarrow> int \<Rightarrow> int \<Rightarrow> error + 'a list list" where
  "reshape xs Nrows Ncols =
     (if int (length xs) = Nrows * Ncols \<and> 0 \<le> Nrows \<and> 0 \<le> Ncols
      then Inr (split_rows (nat Nrows) (nat Ncols) xs)
      else Inl ValueError)"

definition DfSuperCats :: "grids \<Rightarrow> error + pyval list list" where
  "DfSuperCats g = reshape (SuperCats (VG_ThetaS (flatten_all g))) (nrows g) (ncols g)"

subsection \<open>DataFrames built column by column\<close>

text \<open>
  A frame is the length of its RangeIndex and its columns in insertion order. Assigning a
  Series labelled \<open>0..n-1\<close> to a frame without columns gives the frame that index; to a
  frame with columns it aligns on the index (a label the Series lacks gives a missing
  value). Assigning an array raises ValueError unless its length is the length of the
  index. Assigning a scalar fills the column. (pandas lets a frame whose index is still
  empty adopt the length of a non-empty array; the script cannot reach that case, because
  its index is empty only for an empty grid, and then all five arrays are empty.)
\<close>

record dataframe =
  index_len :: nat
  columns :: "(string \<times> pyval list) list"

definition DataFrame :: dataframe where
  "DataFrame = \<lparr>index_len = 0, columns = []\<rparr>"

definition set_Series :: "dataframe \<Rightarrow> string \<Rightarrow> pyval list \<Rightarrow> dataframe" where
  "set_Series df name vals =
     (if columns df = [] then \<lparr>index_len = length vals, columns = [(name, vals)]\<rparr>
      else df\<lparr>columns := columns df @
              [(name, map (\<lambda>i. if i < length vals then vals ! i else PyNone) [0..<index_len df])]\<rparr>)"

definition set_array :: "dataframe \<Rightarrow> string \<Rightarrow> pyval list \<Rightarrow> error + dataframe" where
  "set_array df name vals =
     (if length vals = index_len df then Inr (df\<lparr>columns := columns df @ [(name, vals)]\<rparr>)
      else Inl ValueError)"

definition set_scalar :: "dataframe \<Rightarrow> string \<Rightarrow> pyval \<Rightarrow> dataframe" where
  "set_scalar df name v = df\<lparr>columns := columns df @ [(name, replicate (index_len df) v)]\<rparr>"

text \<open>\<open>pd.Series(v, index=np.arange(n))\<close>.\<close>

definition Series_const :: "pyval \<Rightarrow> nat \<Rightarrow> pyval list" where
  "Series_const v n = replicate n v"

text \<open>\<open>to_csv(index=False, header=True)\<close>: the column names, then one row per index label.\<close>

definition frame_file :: "string \<Rightarrow> dataframe \<Rightarrow> text_file" where
  "frame_file s df =
     \<lparr>sep = s, header = Some (map fst (columns df)),
      rows = map (\<lambda>i. map (\<lambda>(name, col). col ! i) (columns df)) [0..<index_len df]\<rparr>"

text \<open>\<open>to_csv(index=False, header=False)\<close> of a frame made from a 2D array.\<close>

definition grid_file :: "string \<Rightarrow> pyval list list \<Rightarrow> text_file" where
  "grid_file s g = \<lparr>sep = s, header = None, rows = g\<rparr>"

subsection \<open>Soil properties (lines 156-175) and soil details (lines 188-194)\<close>

text \<open>Line 156 rebinds \<open>SuperCats\<close> to its unique values.\<close>

definition SuperCats_unique :: "grids \<Rightarrow> pyval list" where
  "SuperCats_unique g = unique (SuperCats (VG_ThetaS (flatten_all g)))"

text \<open>Lines 158-162 take the unique values of the flattened DataFrames as they were loaded.\<close>

definition VG_SuperThetaS :: "grids \<Rightarrow> pyval list" where
  "VG_SuperThetaS g = map PyFloat (unique (flatten (DfVG_ThetaS g)))"

definition VG_SuperThetaR :: "grids \<Rightarrow> pyval list" where
  "VG_SuperThetaR g = map PyFloat (unique (flatten (DfVG_ThetaR g)))"

definition VG_SuperKsat :: "grids \<Rightarrow> pyval list" where
  "VG_SuperKsat g = map PyFloat (unique (flatten (DfVG_Ksat g)))"

definition VG_SuperAlpha :: "grids \<Rightarrow> pyval list" where
  "VG_SuperAlpha g = map PyFloat (unique (flatten (DfVG_Alpha g)))"

definition VG_SuperN :: "grids \<Rightarrow> pyval list" where
  "VG_SuperN g = map PyFloat (unique (flatten (DfVG_N g)))"

definition DfSoilSuperProperties :: "grids \<Rightarrow> error + dataframe" where
  "DfSoilSuperProperties g =
     (let S = SuperCats_unique g;
          df1 = set_Series DataFrame ''SoilProperty'' (Series_const (PyStr ''<SoilProperty>'') (length S));
          df2 = set_Series df1 ''SuperCats'' S;
          df3 = set_Series df2 ''SoilType'' S
      in and_then (set_array df3 ''VG_ThetaS'' (VG_SuperThetaS g)) (\<lambda>df4.
         and_then (set_array df4 ''VG_ThetaR'' (VG_SuperThetaR g)) (\<lambda>df5.
         and_then (set_array df5 ''VG_Ksat'' (VG_SuperKsat g)) (\<lambda>df6.
         and_then (set_array df6 ''VG_alpha'' (VG_SuperAlpha g)) (\<lambda>df7.
         and_then (set_array df7 ''VG_n'' (VG_SuperN g)) (\<lambda>df8.
           Inr (set_scalar df8 ''</SoilProperty>'' (PyStr ''</SoilProperty>''))))))))"

definition DfSuperDetails :: "grids \<Rightarrow> dataframe" where
  "DfSuperDetails g =
     (let S = SuperCats_unique g;
          df1 = set_Series DataFrame ''<SoilDetails>'' (Series_const (PyStr ''<SoilDetail>'') (length S));
          df2 = set_Series df1 ''SuperCats'' S;
          df3 = set_scalar df2 ''SoilLayer'' (PyInt 1);
          df4 = set_Series df3 ''SoilType'' S;
          df5 = set_scalar df4 ''Depth[m]'' (PyFloat 2.0)
      in set_Series df5 ''</SoilDetails>'' (Series_const (PyStr ''</SoilDetail>'') (length S)))"

text \<open>
  The frame lines 166-175 build when none of the five array assignments raises: the three
  columns made from \<open>SuperCats\<close>, the five arrays of unique values, the closing tag.
\<close>

definition properties_frame :: "grids \<Rightarrow> dataframe" where
  "properties_frame g =
     \<lparr>index_len = length (SuperCats_unique g),
      columns = [(''SoilProperty'', replicate (length (SuperCats_unique g)) (PyStr ''<SoilProperty>'')),
                 (''SuperCats'', SuperCats_unique g),
                 (''SoilType'', SuperCats_unique g),
                 (''VG_ThetaS'', VG_SuperThetaS g),
                 (''VG_ThetaR'', VG_SuperThetaR g),
                 (''VG_Ksat'', VG_SuperKsat g),
                 (''VG_alpha'', VG_SuperAlpha g),
                 (''VG_n'', VG_SuperN g),
                 (''</SoilProperty>'', replicate (length (SuperCats_unique g)) (PyStr ''</SoilProperty>''))]\<rparr>"

subsection \<open>The whole run\<close>

text \<open>
  The result is the exception that ended the run, if any, and the output files as the run
  left them. The three writes are lines 146, 178 and 198.
\<close>

definition run :: "env \<Rightarrow> outputs \<Rightarrow> error option \<times> outputs" where
  "run e out0 =
     (case load e of Inl x \<Rightarrow> (Some x, out0) | Inr g \<Rightarrow>
      (case DfSuperCats g of Inl x \<Rightarrow> (Some x, out0) | Inr m \<Rightarrow>
       (case to_csv e out0 SuperCats_path (grid_file '' '' m) of Inl x \<Rightarrow> (Some x, out0) | Inr out1 \<Rightarrow>
        (case DfSoilSuperProperties g of Inl x \<Rightarrow> (Some x, out1) | Inr p \<Rightarrow>
         (case to_csv e out1 SoilProperties_path (frame_file '','' p) of Inl x \<Rightarrow> (Some x, out1) | Inr out2 \<Rightarrow>
          (case to_csv e out2 SoilDetails_path (frame_file '','' (DfSuperDetails g)) of
             Inl x \<Rightarrow> (Some x, out2)
           | Inr out3 \<Rightarrow> (None, out3)))))))"

subsection \<open>Example inputs\<close>

text \<open>
  A 2 x 2 grid set in which three cells share one soil and the fourth has another, and the
  environment that holds a grid set as five files, every output path being writable.
\<close>

definition example_grids :: grids where
  "example_grids =
     \<lparr>nrows = 2, ncols = 2,
      DfVG_ThetaS = [[0.4, 0.4], [0.5, 0.4]],
      DfVG_ThetaR = [[0.05, 0.05], [0.06, 0.05]],
      DfVG_Ksat = [[100, 100], [250, 100]],
      DfVG_Alpha = [[0.02, 0.02], [0.03, 0.02]],
      DfVG_N = [[1.5, 1.5], [1.6, 1.5]]\<rparr>"

definition env_of :: "grids \<Rightarrow> env" where
  "env_of g =
     \<lparr>PathList = [''A_5km.asc'', ''B_5km.asc'', ''C_5km.asc'', ''D_5km.asc'', ''E_5km.asc''],
      asc = (\<lambda>p. \<lparr>header_scan = Inr (ncols g, nrows g),
                     raster = (if p = ''A_5km.asc'' then DfVG_ThetaS g
                               else if p = ''B_5km.asc'' then DfVG_ThetaR g
                               else if p = ''C_5km.asc'' then DfVG_Ksat g
                               else if p = ''D_5km.asc'' then DfVG_Alpha g
                               else DfVG_N g)\<rparr>),
      writable = (\<lambda>p. True)\<rparr>"

text \<open>
  The same grids, except that \<open>VG_ThetaR\<close> has three distinct values where \<open>VG_ThetaS\<close>
  has two; and a directory in which no file matches.
\<close>

definition mismatch_grids :: grids where
  "mismatch_grids = example_grids\<lparr>DfVG_ThetaR := [[0.05, 0.07], [0.06, 0.05]]\<rparr>"

definition no_match_env :: env where
  "no_match_env = (env_of example_grids)\<lparr>PathList := []\<rparr>"

text \<open>A directory in which only two files match.\<close>

definition two_files_env :: env where
  "two_files_env = (env_of example_grids)\<lparr>PathList := [''A_5km.asc'', ''B_5km.asc'']\<rparr>"

text \<open>The example grids in a directory where the Soil Details file cannot be written.\<close>

definition details_locked_env :: env where
  "details_locked_env = (env_of example_grids)\<lparr>writable := (\<lambda>p. p \<noteq> SoilDetails_path)\<rparr>"

section \<open>Properties\<close>

subsection \<open>Unique values in order of first appearance\<close>

lemma set_uniques_from: "set (uniques_from seen xs) = set seen \<union> set xs"
  by (induction xs arbitrary: seen) auto

lemma distinct_uniques_from: "distinct seen \<Longrightarrow> distinct (uniques_from seen xs)"
  by (induction xs arbitrary: seen) auto

lemma uniques_from_prefix: "\<exists>ys. uniques_from seen xs = seen @ ys"
proof (induction xs arbitrary: seen)
  case Nil
  then show ?case by simp
next
  case (Cons x xs)
  obtain ys where "uniques_from (seen @ [x]) xs = (seen @ [x]) @ ys"
    using Cons.IH [of "seen @ [x]"] by blast
  then have a: "uniques_from (seen @ [x]) xs = seen @ (x # ys)" by simp
  show ?case
  proof (cases "x \<in> set seen")
    case True
    then show ?thesis using Cons.IH [of seen] by simp
  next
    case False
    then show ?thesis using a by simp
  qed
qed

lemma uniques_from_nth_seen:
  "i < length seen \<Longrightarrow> uniques_from seen xs ! i = seen ! i"
  using uniques_from_prefix [of seen xs] by (auto simp: nth_append)

lemma length_uniques_from_ge: "length seen \<le> length (uniques_from seen xs)"
  using uniques_from_prefix [of seen xs] by auto

lemma uniques_from_first_seen:
  "distinct seen \<Longrightarrow> x \<notin> set seen \<Longrightarrow> x \<in> set xs \<Longrightarrow>
   length seen + card (set (takeWhile (\<lambda>y. y \<noteq> x) xs) - set seen) < length (uniques_from seen xs) \<and>
   uniques_from seen xs ! (length seen + card (set (takeWhile (\<lambda>y. y \<noteq> x) xs) - set seen)) = x"
proof (induction xs arbitrary: seen)
  case Nil
  then show ?case by simp
next
  case (Cons y ys)
  show ?case
  proof (cases "y = x")
    case True
    have "length (seen @ [x]) \<le> length (uniques_from (seen @ [x]) ys)"
      by (rule length_uniques_from_ge)
    moreover have "uniques_from (seen @ [x]) ys ! length seen = (seen @ [x]) ! length seen"
      by (rule uniques_from_nth_seen) simp
    ultimately show ?thesis using True Cons.prems by simp
  next
    case False
    then have xin: "x \<in> set ys" using Cons.prems by simp
    show ?thesis
    proof (cases "y \<in> set seen")
      case True
      then have e: "set (takeWhile (\<lambda>y. y \<noteq> x) (y # ys)) - set seen
                 = set (takeWhile (\<lambda>y. y \<noteq> x) ys) - set seen"
        using False by auto
      have s: "uniques_from seen (y # ys) = uniques_from seen ys"
        using True by simp
      show ?thesis
        unfolding s e by (rule Cons.IH [OF Cons.prems(1) Cons.prems(2) xin])
    next
      case yn: False
      let ?T = "set (takeWhile (\<lambda>y. y \<noteq> x) ys)"
      have d: "distinct (seen @ [y])" using Cons.prems(1) yn by simp
      have n: "x \<notin> set (seen @ [y])" using Cons.prems(2) False by simp
      have eq: "set (takeWhile (\<lambda>y. y \<noteq> x) (y # ys)) - set seen = insert y (?T - set (seen @ [y]))"
        using False yn by auto
      have ci: "card (insert y (?T - set (seen @ [y]))) = Suc (card (?T - set (seen @ [y])))"
        by (rule card_insert_disjoint) auto
      have c: "length seen + card (set (takeWhile (\<lambda>y. y \<noteq> x) (y # ys)) - set seen)
                 = length (seen @ [y]) + card (?T - set (seen @ [y]))"
        unfolding eq ci by simp
      have s: "uniques_from seen (y # ys) = uniques_from (seen @ [y]) ys"
        using yn by simp
      show ?thesis
        unfolding s c by (rule Cons.IH [OF d n xin])
    qed
  qed
qed

lemma set_unique: "set (unique xs) = set xs"
  by (simp add: unique_def set_uniques_from)

lemma distinct_unique: "distinct (unique xs)"
  by (simp add: unique_def distinct_uniques_from)

lemma length_unique: "length (unique xs) = card (set xs)"
  using distinct_card [OF distinct_unique, of xs] by (simp add: set_unique)

lemma unique_first_seen:
  assumes "x \<in> set xs"
  shows "card (set (takeWhile (\<lambda>y. y \<noteq> x) xs)) < length (unique xs)"
    and "unique xs ! card (set (takeWhile (\<lambda>y. y \<noteq> x) xs)) = x"
  using uniques_from_first_seen [of "[]" x xs] assms by (simp_all add: unique_def)

lemma uniques_from_map:
  "inj_on f (set seen \<union> set xs) \<Longrightarrow>
   uniques_from (map f seen) (map f xs) = map f (uniques_from seen xs)"
proof (induction xs arbitrary: seen)
  case Nil
  then show ?case by simp
next
  case (Cons x xs)
  have m: "f x \<in> f ` set seen \<longleftrightarrow> x \<in> set seen"
    using Cons.prems by (auto simp: inj_on_def)
  show ?case
  proof (cases "x \<in> set seen")
    case True
    have "inj_on f (set seen \<union> set xs)"
      using Cons.prems by (rule inj_on_subset) auto
    then show ?thesis using Cons.IH [of seen] True m by simp
  next
    case False
    have "inj_on f (set (seen @ [x]) \<union> set xs)"
      using Cons.prems by (rule inj_on_subset) auto
    then show ?thesis using Cons.IH [of "seen @ [x]"] False m by simp
  qed
qed

lemma unique_map: "inj_on f (set xs) \<Longrightarrow> unique (map f xs) = map f (unique xs)"
  using uniques_from_map [of f "[]" xs] by (simp add: unique_def)

lemma fold_upd_other:
  "k \<notin> set ks \<Longrightarrow> fold (\<lambda>(k, v) m. m(k \<mapsto> v)) (zip ks vs) m0 k = m0 k"
proof (induction ks arbitrary: vs m0)
  case Nil
  then show ?case by simp
next
  case (Cons a as)
  then show ?case by (cases vs) (auto simp del: fun_upd_apply simp add: fun_upd_other)
qed

lemma fold_upd_zip:
  "distinct ks \<Longrightarrow> length vs = length ks \<Longrightarrow> i < length ks \<Longrightarrow>
   fold (\<lambda>(k, v) m. m(k \<mapsto> v)) (zip ks vs) m0 (ks ! i) = Some (vs ! i)"
proof (induction ks arbitrary: vs m0 i)
  case Nil
  then show ?case by simp
next
  case (Cons k ks)
  then obtain v vs' where vs: "vs = v # vs'" by (cases vs) auto
  show ?case
  proof (cases i)
    case 0
    have "k \<notin> set ks" using Cons.prems(1) by simp
    then have "fold (\<lambda>(k, v) m. m(k \<mapsto> v)) (zip ks vs') (m0(k \<mapsto> v)) k = (m0(k \<mapsto> v)) k"
      by (rule fold_upd_other)
    then show ?thesis using 0 vs by (simp del: fun_upd_apply add: fun_upd_same)
  next
    case (Suc j)
    then show ?thesis
      using Cons.IH [of vs' j] Cons.prems vs by simp
  qed
qed

lemma dict_nth:
  "i < length (unique xs) \<Longrightarrow> VG_ThetaS_unique_dict xs (unique xs ! i) = Some i"
  using fold_upd_zip [OF distinct_unique, of "[0..<length (unique xs)]" xs i Map.empty]
  by (simp add: VG_ThetaS_unique_dict_def to_dict_def Let_def)

lemma dict_first_seen:
  "x \<in> set xs \<Longrightarrow>
   VG_ThetaS_unique_dict xs x = Some (card (set (takeWhile (\<lambda>y. y \<noteq> x) xs)))"
  using dict_nth [OF unique_first_seen(1), of x xs] unique_first_seen(2) [of x xs] by simp

subsection \<open>The supercategory of a cell\<close>

lemma SuperCats_nth:
  assumes "i < length xs"
  shows "SuperCats xs ! i = PyInt (int (card (set (takeWhile (\<lambda>v. v \<noteq> xs ! i) xs))))"
proof -
  have "xs ! i \<in> set xs" using assms by simp
  then have "VG_ThetaS_unique_dict xs (xs ! i) = Some (card (set (takeWhile (\<lambda>v. v \<noteq> xs ! i) xs)))"
    by (rule dict_first_seen)
  then show ?thesis
    using assms by (simp add: SuperCats_def dict_get_def)
qed

lemma first_seen_inj:
  assumes "x \<in> set xs" and "y \<in> set xs"
    and "card (set (takeWhile (\<lambda>v. v \<noteq> x) xs)) = card (set (takeWhile (\<lambda>v. v \<noteq> y) xs))"
  shows "x = y"
proof -
  have "x = unique xs ! card (set (takeWhile (\<lambda>v. v \<noteq> x) xs))"
    using unique_first_seen(2) [OF assms(1)] by (rule sym)
  also have "\<dots> = unique xs ! card (set (takeWhile (\<lambda>v. v \<noteq> y) xs))"
    by (simp only: assms(3))
  also have "\<dots> = y"
    by (rule unique_first_seen(2) [OF assms(2)])
  finally show ?thesis .
qed


lemma dict_get_inj: "inj_on (dict_get (VG_ThetaS_unique_dict xs)) (set xs)"
proof (rule inj_onI)
  fix x y
  assume x: "x \<in> set xs" and y: "y \<in> set xs"
    and eq: "dict_get (VG_ThetaS_unique_dict xs) x = dict_get (VG_ThetaS_unique_dict xs) y"
  have dx: "dict_get (VG_ThetaS_unique_dict xs) x = PyInt (int (card (set (takeWhile (\<lambda>v. v \<noteq> x) xs))))"
    by (simp add: dict_get_def dict_first_seen [OF x])
  have dy: "dict_get (VG_ThetaS_unique_dict xs) y = PyInt (int (card (set (takeWhile (\<lambda>v. v \<noteq> y) xs))))"
    by (simp add: dict_get_def dict_first_seen [OF y])
  from eq have "card (set (takeWhile (\<lambda>v. v \<noteq> x) xs)) = card (set (takeWhile (\<lambda>v. v \<noteq> y) xs))"
    unfolding dx dy by simp
  then show "x = y" by (rule first_seen_inj [OF x y])
qed

lemma unique_SuperCats:
  "unique (SuperCats xs) = map (\<lambda>i. PyInt (int i)) [0..<card (set xs)]"
proof -
  have "unique (SuperCats xs) = map (dict_get (VG_ThetaS_unique_dict xs)) (unique xs)"
    unfolding SuperCats_def by (rule unique_map [OF dict_get_inj])
  also have "\<dots> = map (\<lambda>i. PyInt (int i)) [0..<length (unique xs)]"
    by (rule nth_equalityI) (simp_all add: dict_get_def dict_nth)
  finally show ?thesis by (simp add: length_unique)
qed

subsection \<open>Binary64 rounding\<close>

lemma cm_to_m_100: "cm_to_m 100 = 1"
  by (simp add: cm_to_m_def c001_def round_double_def exponent_def pow2_def round_half_even_def
      bit_length.simps)

text \<open>\<open>35.0 * 0.01\<close> is the double Python prints as \<open>0.35000000000000003\<close>.\<close>

lemma cm_to_m_35: "cm_to_m 35 = 6305039478318695 / 2 ^ 54"
  by (simp add: cm_to_m_def c001_def round_double_def exponent_def pow2_def round_half_even_def
      bit_length.simps Let_def)

text \<open>
  Three products that are not exact: Python prints them as \<open>0.5700000000000001\<close>,
  \<open>0.011000000000000001\<close> (for the double nearest 1.1) and \<open>0.03\<close>.
\<close>

lemma cm_to_m_samples:
  "cm_to_m 57 = 2567051787601183 / 2 ^ 52"
  "cm_to_m (2476979795053773 / 2 ^ 51) = 6341068275337659 / 2 ^ 59"
  "cm_to_m 3 = 1080863910568919 / 2 ^ 55"
  by (simp_all add: cm_to_m_def c001_def round_double_def exponent_def pow2_def round_half_even_def
      bit_length.simps Let_def)

lemma cm_to_m_250: "cm_to_m 250 = 2.5"
  by (simp add: cm_to_m_def c001_def round_double_def exponent_def pow2_def round_half_even_def
      bit_length.simps Let_def)

lemma bit_length_nonneg: "0 \<le> bit_length n"
  by (induction n rule: bit_length.induct) (simp add: bit_length.simps)

lemma bit_length_upper: "0 \<le> n \<Longrightarrow> n < 2 ^ nat (bit_length n)"
proof (induction n rule: bit_length.induct)
  case (1 n)
  show ?case
  proof (cases "n \<le> 0")
    case True
    then show ?thesis using "1.prems" by (simp add: bit_length.simps)
  next
    case False
    then have ih: "n div 2 < 2 ^ nat (bit_length (n div 2))"
      using "1.IH" by simp
    have "nat (bit_length n) = Suc (nat (bit_length (n div 2)))"
      using False bit_length_nonneg [of "n div 2"] by (simp add: bit_length.simps [of n])
    then show ?thesis using ih by simp
  qed
qed

lemma bit_length_lower: "0 < n \<Longrightarrow> 2 ^ nat (bit_length n - 1) \<le> n"
proof (induction n rule: bit_length.induct)
  case (1 n)
  have b: "bit_length n - 1 = bit_length (n div 2)"
    using "1.prems" by (simp add: bit_length.simps [of n])
  show ?case
  proof (cases "n div 2 \<le> 0")
    case True
    then have "n div 2 = 0" using "1.prems" by simp
    then show ?thesis using "1.prems" b by (simp add: bit_length.simps [of 0])
  next
    case False
    then have ih: "2 ^ nat (bit_length (n div 2) - 1) \<le> n div 2"
      using "1.IH" "1.prems" by simp
    have "0 < bit_length (n div 2)"
      using False bit_length_nonneg [of "n div 2 div 2"] by (simp add: bit_length.simps [of "n div 2"])
    then have "nat (bit_length (n div 2)) = Suc (nat (bit_length (n div 2) - 1))"
      by simp
    then have "(2::int) ^ nat (bit_length (n div 2)) = 2 * 2 ^ nat (bit_length (n div 2) - 1)"
      by simp
    also have "\<dots> \<le> 2 * (n div 2)" using ih by simp
    also have "\<dots> \<le> n" by simp
    finally show ?thesis unfolding b .
  qed
qed


lemma pow2_powi: "pow2 k = 2 powi k"
  by (simp add: pow2_def power_int_def inverse_eq_divide power_one_over)

lemma pow2_pos: "0 < pow2 k"
  by (simp add: pow2_powi)

lemma exponent_le:
  assumes "r \<noteq> 0"
  shows "pow2 (exponent r) \<le> \<bar>r\<bar>"
proof (cases "1 \<le> \<bar>r\<bar>")
  case True
  then have p: "0 < \<lfloor>\<bar>r\<bar>\<rfloor>" by simp
  have "0 \<le> bit_length \<lfloor>\<bar>r\<bar>\<rfloor> - 1"
    using p bit_length_nonneg [of "\<lfloor>\<bar>r\<bar>\<rfloor> div 2"] by (simp add: bit_length.simps [of "\<lfloor>\<bar>r\<bar>\<rfloor>"])
  then have "pow2 (exponent r) = of_int (2 ^ nat (bit_length \<lfloor>\<bar>r\<bar>\<rfloor> - 1))"
    using True by (simp add: exponent_def pow2_def)
  also have "\<dots> \<le> of_int \<lfloor>\<bar>r\<bar>\<rfloor>"
    using bit_length_lower [OF p] by (simp only: of_int_le_iff)
  also have "\<dots> \<le> \<bar>r\<bar>" by simp
  finally show ?thesis .
next
  case False
  let ?m = "\<lceil>1 / \<bar>r\<bar>\<rceil> - 1"
  have rp: "0 < \<bar>r\<bar>" using assms by simp
  then have "0 < 1 / \<bar>r\<bar>" by simp
  then have m0: "0 \<le> ?m" by (simp add: less_ceiling_iff)
  have "1 / \<bar>r\<bar> \<le> of_int \<lceil>1 / \<bar>r\<bar>\<rceil>" by simp
  also have "\<dots> \<le> of_int (2 ^ nat (bit_length ?m))"
  proof -
    have "\<lceil>1 / \<bar>r\<bar>\<rceil> \<le> 2 ^ nat (bit_length ?m)"
      using bit_length_upper [OF m0] by simp
    then show ?thesis by (simp only: of_int_le_iff)
  qed
  finally have "1 / \<bar>r\<bar> \<le> 2 ^ nat (bit_length ?m)" by simp
  then have "1 / 2 ^ nat (bit_length ?m) \<le> \<bar>r\<bar>"
    using rp by (simp add: field_simps)
  moreover have "pow2 (exponent r) = 1 / 2 ^ nat (bit_length ?m)"
    using False bit_length_nonneg [of ?m] by (simp add: exponent_def pow2_def)
  ultimately show ?thesis by simp
qed

lemma round_half_even_error: "\<bar>of_int (round_half_even x) - x\<bar> \<le> 1 / 2"
proof -
  have "of_int \<lfloor>x\<rfloor> \<le> x" "x < of_int \<lfloor>x\<rfloor> + 1" by linarith+
  then show ?thesis
    by (auto simp: round_half_even_def Let_def)
qed


lemma round_double_error: "\<bar>round_double r - r\<bar> \<le> \<bar>r\<bar> / 2 ^ 53 + 1 / 2 ^ 1075"
proof (cases "r = 0")
  case True
  then show ?thesis by (simp add: round_double_def)
next
  case False
  define q where "q = pow2 (max (exponent r) (- 1022) - 52)"
  have qp: "0 < q" by (simp add: q_def pow2_pos)
  have rd: "round_double r = of_int (round_half_even (r / q)) * q"
    using False by (simp add: round_double_def q_def Let_def)
  have "round_double r - r = (of_int (round_half_even (r / q)) - r / q) * q"
    using qp by (simp add: rd left_diff_distrib)
  then have "\<bar>round_double r - r\<bar> = \<bar>of_int (round_half_even (r / q)) - r / q\<bar> * q"
    using qp by (simp only: abs_mult)
  also have "\<dots> \<le> (1 / 2) * q"
    using round_half_even_error [of "r / q"] qp by (intro mult_right_mono) simp_all
  finally have e: "\<bar>round_double r - r\<bar> \<le> q / 2" by simp
  have "q / 2 \<le> \<bar>r\<bar> / 2 ^ 53 + 1 / 2 ^ 1075"
  proof (cases "- 1022 \<le> exponent r")
    case True
    then have "q = pow2 (exponent r) / 2 ^ 52"
      by (simp add: q_def pow2_powi power_int_diff max_def)
    also have "\<dots> \<le> \<bar>r\<bar> / 2 ^ 52"
      using exponent_le [OF False] by (simp add: divide_right_mono)
    finally have "q / 2 \<le> \<bar>r\<bar> / 2 ^ 53" by simp
    then show ?thesis by (simp add: add_increasing2)
  next
    case False
    then have "q = 1 / 2 ^ 1074"
      by (simp add: q_def pow2_def max_def)
    then have "q / 2 = 1 / 2 ^ 1075" by simp
    then show ?thesis by simp
  qed
  then show ?thesis using e by linarith
qed

lemma c001_error: "\<bar>c001 - 1 / 100\<bar> \<le> 1 / 100 / 2 ^ 55"
  by (simp add: c001_def)

lemma cm_to_m_error:
  assumes "x \<noteq> - 999"
  shows "\<bar>cm_to_m x - x * 0.01\<bar> \<le> \<bar>x * 0.01\<bar> / 2 ^ 52 + 1 / 2 ^ 1075"
proof -
  define u where "u = \<bar>x\<bar> / 100"
  define d :: real where "d = 1 / 2 ^ 1075"
  have u0: "0 \<le> u" by (simp add: u_def)
  have a: "\<bar>x * c001 - x / 100\<bar> \<le> u / 2 ^ 55"
  proof -
    have "\<bar>x * c001 - x / 100\<bar> = \<bar>x\<bar> * \<bar>c001 - 1 / 100\<bar>"
      by (simp add: abs_mult [symmetric] right_diff_distrib)
    also have "\<dots> \<le> \<bar>x\<bar> * (1 / 100 / 2 ^ 55)"
      by (intro mult_left_mono c001_error) simp
    finally show ?thesis by (simp add: u_def)
  qed
  have "\<bar>x * c001\<bar> \<le> \<bar>x / 100\<bar> + \<bar>x * c001 - x / 100\<bar>" by linarith
  then have b: "\<bar>x * c001\<bar> \<le> u + u / 2 ^ 55" using a by (simp add: u_def)
  have "\<bar>round_double (x * c001) - x * c001\<bar> \<le> \<bar>x * c001\<bar> / 2 ^ 53 + d"
    unfolding d_def by (rule round_double_error)
  also have "\<dots> \<le> (u + u / 2 ^ 55) / 2 ^ 53 + d"
    using b by (simp add: divide_right_mono)
  finally have c: "\<bar>round_double (x * c001) - x * c001\<bar> \<le> (u + u / 2 ^ 55) / 2 ^ 53 + d" .
  have "(u + u / 2 ^ 55) / 2 ^ 53 + u / 2 ^ 55 \<le> u / 2 ^ 52"
    using u0 by (simp add: field_simps)
  then have "\<bar>round_double (x * c001) - x / 100\<bar> \<le> u / 2 ^ 52 + d"
    using a c by linarith
  then show ?thesis
    using assms by (simp add: cm_to_m_def u_def d_def abs_mult)
qed


subsection \<open>The unit converter\<close>

text \<open>
  C3. Applied to the flattened Ksat values, the converter of line 120 returns a Series of
  equal length in which every \<open>-999\<close> is passed through unchanged and every other element
  \<open>v\<close> is mapped to \<open>v * 0.01\<close>, the binary64 product of \<open>v\<close> and the double \<open>0.01\<close>. That
  product differs from the exact \<open>v / 100\<close> by no more than the expected floating
  precision: a relative error of \<open>2 ^ -52\<close>, plus \<open>2 ^ -1075\<close> where the result underflows.
  The input \<open>100.0\<close> gives exactly \<open>1.0\<close>.
\<close>

theorem unit_converter_spec:
  "length (Series_apply cm_to_m xs) = length xs \<and>
   (\<forall>i<length xs. Series_apply cm_to_m xs ! i =
        (if xs ! i = - 999 then - 999 else round_double (xs ! i * c001))) \<and>
   (\<forall>i<length xs. xs ! i \<noteq> - 999 \<longrightarrow>
        \<bar>Series_apply cm_to_m xs ! i - xs ! i * 0.01\<bar> \<le> \<bar>xs ! i * 0.01\<bar> / 2 ^ 52 + 1 / 2 ^ 1075) \<and>
   Series_apply cm_to_m [100.0] = [1.0]"
proof (intro conjI allI impI)
  show "length (Series_apply cm_to_m xs) = length xs"
    by (simp add: Series_apply_def)
next
  fix i assume "i < length xs"
  then show "Series_apply cm_to_m xs ! i =
        (if xs ! i = - 999 then - 999 else round_double (xs ! i * c001))"
    by (simp add: Series_apply_def cm_to_m_def)
next
  fix i assume i: "i < length xs" and n: "xs ! i \<noteq> - 999"
  have "Series_apply cm_to_m xs ! i = cm_to_m (xs ! i)"
    using i by (simp add: Series_apply_def)
  then show "\<bar>Series_apply cm_to_m xs ! i - xs ! i * 0.01\<bar> \<le> \<bar>xs ! i * 0.01\<bar> / 2 ^ 52 + 1 / 2 ^ 1075"
    using cm_to_m_error [OF n] by (simp only:)
next
  show "Series_apply cm_to_m [100.0] = [1.0]"
    using cm_to_m_100 by (simp add: Series_apply_def)
qed

theorem unit_converter_spec_witness:
  "(0::nat) < length [35, - 999, 250 :: real] \<and> (1::nat) < length [35, - 999, 250 :: real] \<and>
   [35, - 999, 250 :: real] ! 0 \<noteq> - 999 \<and>
   Series_apply cm_to_m [35, - 999, 250] ! 0 = 6305039478318695 / 2 ^ 54 \<and>
   Series_apply cm_to_m [35, - 999, 250] ! 1 = - 999 \<and>
   \<bar>Series_apply cm_to_m [35, - 999, 250] ! 0 - 35 * 0.01\<bar> \<le> \<bar>35 * 0.01\<bar> / 2 ^ 52 + 1 / 2 ^ 1075"
proof -
  have l: "(0::nat) < length [35, - 999, 250 :: real]" "(1::nat) < length [35, - 999, 250 :: real]"
    and n: "[35, - 999, 250 :: real] ! 0 \<noteq> - 999"
    by simp_all
  have v: "Series_apply cm_to_m [35, - 999, 250] ! 0 = 6305039478318695 / 2 ^ 54"
    "Series_apply cm_to_m [35, - 999, 250] ! 1 = - 999"
    using cm_to_m_35 by (simp_all add: Series_apply_def cm_to_m_def)
  have b: "\<bar>Series_apply cm_to_m [35, - 999, 250] ! 0 - [35, - 999, 250] ! 0 * 0.01\<bar>
           \<le> \<bar>[35, - 999, 250] ! 0 * 0.01\<bar> / 2 ^ 52 + 1 / 2 ^ 1075"
    using unit_converter_spec [of "[35, - 999, 250]"] l n by blast
  have "[35, - 999, 250 :: real] ! 0 = 35" by simp
  then have "\<bar>Series_apply cm_to_m [35, - 999, 250] ! 0 - 35 * 0.01\<bar> \<le> \<bar>35 * 0.01\<bar> / 2 ^ 52 + 1 / 2 ^ 1075"
    using b by (simp only:)
  then show ?thesis using l n v by blast
qed

subsection \<open>Supercategory IDs\<close>

text \<open>
  C1. Two cells receive the same Supercategory ID exactly when their \<open>VG_ThetaS\<close> values
  are equal, and the ID of a cell is the number of distinct values that appear in the
  flattened grid before the first occurrence of the cell's value: the first distinct value
  gets 0, the second 1, and so on. The 2 x 2 grid \<open>[[0.4, 0.4], [0.5, 0.4]]\<close> gives the
  map \<open>[[0, 0], [1, 0]]\<close> and exactly the two IDs 0 and 1, whatever the other four grids
  hold.
\<close>

theorem SuperCats_first_seen:
  "length (SuperCats xs) = length xs \<and>
   (\<forall>i<length xs. \<forall>j<length xs. SuperCats xs ! i = SuperCats xs ! j \<longleftrightarrow> xs ! i = xs ! j) \<and>
   (\<forall>i<length xs. SuperCats xs ! i = PyInt (int (card (set (takeWhile (\<lambda>v. v \<noteq> xs ! i) xs))))) \<and>
   DfSuperCats (g\<lparr>nrows := 2, ncols := 2, DfVG_ThetaS := [[0.4, 0.4], [0.5, 0.4]]\<rparr>)
     = Inr [[PyInt 0, PyInt 0], [PyInt 1, PyInt 0]] \<and>
   SuperCats_unique (g\<lparr>nrows := 2, ncols := 2, DfVG_ThetaS := [[0.4, 0.4], [0.5, 0.4]]\<rparr>)
     = [PyInt 0, PyInt 1]"
proof (intro conjI allI impI)
  show "length (SuperCats xs) = length xs" by (simp add: SuperCats_def)
next
  fix i j assume i: "i < length xs" and j: "j < length xs"
  have xi: "xs ! i \<in> set xs" and xj: "xs ! j \<in> set xs" using i j by simp_all
  show "SuperCats xs ! i = SuperCats xs ! j \<longleftrightarrow> xs ! i = xs ! j"
  proof
    assume "SuperCats xs ! i = SuperCats xs ! j"
    then have "card (set (takeWhile (\<lambda>v. v \<noteq> xs ! i) xs)) = card (set (takeWhile (\<lambda>v. v \<noteq> xs ! j) xs))"
      by (simp add: SuperCats_nth [OF i] SuperCats_nth [OF j])
    then show "xs ! i = xs ! j" by (rule first_seen_inj [OF xi xj])
  next
    assume "xs ! i = xs ! j"
    then show "SuperCats xs ! i = SuperCats xs ! j"
      by (simp add: SuperCats_nth [OF i] SuperCats_nth [OF j])
  qed
next
  fix i assume "i < length xs"
  then show "SuperCats xs ! i = PyInt (int (card (set (takeWhile (\<lambda>v. v \<noteq> xs ! i) xs))))"
    by (rule SuperCats_nth)
next
  show "DfSuperCats (g\<lparr>nrows := 2, ncols := 2, DfVG_ThetaS := [[0.4, 0.4], [0.5, 0.4]]\<rparr>)
     = Inr [[PyInt 0, PyInt 0], [PyInt 1, PyInt 0]]"
    by (simp add: DfSuperCats_def flatten_all_def flatten_def reshape_def SuperCats_def
        VG_ThetaS_unique_dict_def unique_def to_dict_def dict_get_def eval_nat_numeral)
  show "SuperCats_unique (g\<lparr>nrows := 2, ncols := 2, DfVG_ThetaS := [[0.4, 0.4], [0.5, 0.4]]\<rparr>)
     = [PyInt 0, PyInt 1]"
    by (simp add: SuperCats_unique_def flatten_all_def flatten_def SuperCats_def
        VG_ThetaS_unique_dict_def unique_def to_dict_def dict_get_def)
qed

theorem SuperCats_first_seen_witness:
  "(2::nat) < length [0.4, 0.4, 0.5, 0.4 :: real] \<and> (3::nat) < length [0.4, 0.4, 0.5, 0.4 :: real] \<and>
   (SuperCats [0.4, 0.4, 0.5, 0.4] ! 2 = SuperCats [0.4, 0.4, 0.5, 0.4] ! 3
      \<longleftrightarrow> [0.4, 0.4, 0.5, 0.4 :: real] ! 2 = [0.4, 0.4, 0.5, 0.4] ! 3)"
proof -
  have l: "(2::nat) < length [0.4, 0.4, 0.5, 0.4 :: real]" "(3::nat) < length [0.4, 0.4, 0.5, 0.4 :: real]"
    by simp_all
  show ?thesis
    using l SuperCats_first_seen [of "[0.4, 0.4, 0.5, 0.4]"] by blast
qed

text \<open>
  C4. The number of Supercategory IDs (the length of \<open>SuperCats\<close> after line 156) is the
  number of distinct \<open>VG_ThetaS\<close> values of the flattened grid, the no-data value
  \<open>-999\<close> counting as one value like any other; a grid whose cells all hold \<open>-999\<close>
  has exactly one Supercategory ID.
\<close>

theorem SuperCats_count:
  "length (SuperCats_unique g) = card (set (flatten (DfVG_ThetaS g))) \<and>
   (set (flatten (DfVG_ThetaS g)) = {- 999} \<longrightarrow> length (SuperCats_unique g) = 1)"
  by (simp add: SuperCats_unique_def flatten_all_def unique_SuperCats)

theorem SuperCats_count_witness:
  "set (flatten (DfVG_ThetaS (example_grids\<lparr>DfVG_ThetaS := [[- 999, - 999], [- 999, - 999]]\<rparr>))) = {- 999} \<and>
   length (SuperCats_unique (example_grids\<lparr>DfVG_ThetaS := [[- 999, - 999], [- 999, - 999]]\<rparr>)) = 1"
  using SuperCats_count [of "example_grids\<lparr>DfVG_ThetaS := [[- 999, - 999], [- 999, - 999]]\<rparr>"]
  by (simp add: flatten_def)

subsection \<open>Subcategory numbers\<close>

lemma cell_number_inj:
  fixes n :: int
  assumes "0 < n" "0 \<le> c" "c < n" "0 \<le> c'" "c' < n" "1 + n * r + c = 1 + n * r' + c'"
  shows "r = r' \<and> c = c'"
proof -
  have lt: "n * a + x < n * b + y" if "a < b" "x < n" "0 \<le> y" for a b x y :: int
  proof -
    have "n * (a + 1) \<le> n * b"
      using that(1) assms(1) by (intro mult_left_mono) simp_all
    then have "n * a + n \<le> n * b" by (simp add: distrib_left)
    then show ?thesis using that(2,3) by linarith
  qed
  have "\<not> r < r'" using lt [of r r' c c'] assms by auto
  moreover have "\<not> r' < r" using lt [of r' r c' c] assms by auto
  ultimately have "r = r'" by simp
  then show ?thesis using assms(6) by simp
qed

lemma DfSubCats_nth:
  assumes "0 \<le> Nrows" "0 \<le> Ncols" "r < nat Nrows" "c < nat Ncols"
  shows "map (\<lambda>Row. map (\<lambda>Col. 1 + (Ncols * Row) + Col) [0..Ncols - 1]) [0..Nrows - 1] ! r ! c
         = 1 + Ncols * int r + int c"
  using assms by simp

text \<open>
  C8. For positive \<open>Nrows\<close> and \<open>Ncols\<close> the subcategory grid is built without error,
  has \<open>Nrows\<close> rows of \<open>Ncols\<close> cells, cell \<open>(r, c)\<close> holds \<open>1 + Ncols * r + c\<close>, and
  no two cells hold the same number.
\<close>

theorem DfSubCats_cells:
  assumes "0 < Nrows" and "0 < Ncols"
  shows "\<exists>g. DfSubCats Nrows Ncols = Inr g \<and> length g = nat Nrows \<and>
           (\<forall>r<nat Nrows. length (g ! r) = nat Ncols \<and>
               (\<forall>c<nat Ncols. g ! r ! c = 1 + Ncols * int r + int c)) \<and>
           (\<forall>r<nat Nrows. \<forall>c<nat Ncols. \<forall>r'<nat Nrows. \<forall>c'<nat Ncols.
               g ! r ! c = g ! r' ! c' \<longrightarrow> r = r' \<and> c = c')"
proof -
  let ?g = "map (\<lambda>Row. map (\<lambda>Col. 1 + (Ncols * Row) + Col) [0..Ncols - 1]) [0..Nrows - 1]"
  have nn: "0 \<le> Nrows" "0 \<le> Ncols" using assms by simp_all
  have g: "DfSubCats Nrows Ncols = Inr ?g"
    using assms by (simp add: DfSubCats_def)
  have len: "length ?g = nat Nrows" using assms by simp
  have row: "length (?g ! r) = nat Ncols" if "r < nat Nrows" for r
    using that assms by simp
  have cell: "?g ! r ! c = 1 + Ncols * int r + int c" if "r < nat Nrows" "c < nat Ncols" for r c
    using nn that by (rule DfSubCats_nth)
  have inj: "r = r' \<and> c = c'"
    if "r < nat Nrows" "c < nat Ncols" "r' < nat Nrows" "c' < nat Ncols" "?g ! r ! c = ?g ! r' ! c'"
    for r c r' c'
  proof -
    have "1 + Ncols * int r + int c = 1 + Ncols * int r' + int c'"
      using that(5) cell [OF that(1,2)] cell [OF that(3,4)] by simp
    then have "int r = int r' \<and> int c = int c'"
      using assms(2) that(2,4) by (intro cell_number_inj [of Ncols]) simp_all
    then show ?thesis by simp
  qed
  show ?thesis
    using g len row cell inj by blast
qed

theorem DfSubCats_cells_witness:
  "(0::int) < 2 \<and> (0::int) < 3 \<and> DfSubCats 2 3 = Inr [[1, 2, 3], [4, 5, 6]]"
proof -
  have e: "DfSubCats 2 3 = Inr [[1, 2, 3], [4, 5, 6]]"
    by (simp add: DfSubCats_def upto_rec1)
  show ?thesis
    using DfSubCats_cells [of 2 3] e by simp
qed

subsection \<open>Loading, reshaping and the three files\<close>

lemma and_then_Inl: "and_then (Inl x) f = Inl x"
  by (simp add: and_then_def)

lemma and_then_Inr: "and_then (Inr v) f = f v"
  by (simp add: and_then_def)

lemma and_then_eq_Inr: "and_then r f = Inr y \<longleftrightarrow> (\<exists>v. r = Inr v \<and> f v = Inr y)"
  by (cases r) (simp_all add: and_then_def)

lemma getitem_eq_Inr: "getitem xs i = Inr v \<longleftrightarrow> i < length xs \<and> v = xs ! i"
  by (auto simp: getitem_def)

lemma ASCtoDfParam_eq_Inr:
  "ASCtoDfParam e p r c = Inr g \<longleftrightarrow> g = raster (asc e p) \<and> has_shape g r c"
  by (auto simp: ASCtoDfParam_def Let_def)

lemma DfSubCats_eq_Inr: "DfSubCats r c = Inr g \<Longrightarrow> 0 \<le> r \<and> 0 \<le> c"
  by (auto simp: DfSubCats_def split: if_splits)

lemma load_Inr:
  assumes "load e = Inr g"
  shows "5 \<le> length (PathList e)"
    and "0 \<le> nrows g" and "0 \<le> ncols g"
    and "has_shape (DfVG_ThetaS g) (nrows g) (ncols g)"
    and "has_shape (DfVG_ThetaR g) (nrows g) (ncols g)"
    and "has_shape (DfVG_Ksat g) (nrows g) (ncols g)"
    and "has_shape (DfVG_Alpha g) (nrows g) (ncols g)"
    and "has_shape (DfVG_N g) (nrows g) (ncols g)"
  using assms
  by (auto simp: load_def and_then_eq_Inr getitem_eq_Inr ASCtoDfParam_eq_Inr
      dest: DfSubCats_eq_Inr split: prod.splits)

lemma load_few_files:
  assumes "length (PathList e) < 5"
  shows "\<exists>x. load e = Inl x"
proof (cases "load e")
  case (Inl x)
  then show ?thesis by blast
next
  case (Inr g)
  then show ?thesis using load_Inr(1) [OF Inr] assms by simp
qed

lemma load_no_files: "PathList e = [] \<Longrightarrow> load e = Inl IndexError"
  by (simp add: load_def getitem_def and_then_def)


lemma length_flatten_shape:
  assumes "has_shape g r c"
  shows "int (length (flatten g)) = r * c"
proof -
  have "list_all (\<lambda>row. int (length row) = c) g \<Longrightarrow> int (length (concat g)) = int (length g) * c"
    by (induction g) (simp_all add: distrib_right)
  then show ?thesis using assms by (simp add: has_shape_def flatten_def)
qed

lemma length_split_rows: "length (split_rows r c xs) = r"
  by (induction r arbitrary: xs) simp_all

lemma concat_split_rows: "length xs = r * c \<Longrightarrow> concat (split_rows r c xs) = xs"
  by (induction r arbitrary: xs) simp_all

lemma length_SuperCats: "length (SuperCats xs) = length xs"
  by (simp add: SuperCats_def)

lemma DfSuperCats_loaded:
  assumes "load e = Inr g"
  shows "DfSuperCats g = Inr (split_rows (nat (nrows g)) (nat (ncols g)) (SuperCats (flatten (DfVG_ThetaS g))))"
    and "concat (split_rows (nat (nrows g)) (nat (ncols g)) (SuperCats (flatten (DfVG_ThetaS g))))
         = SuperCats (flatten (DfVG_ThetaS g))"
proof -
  let ?xs = "flatten (DfVG_ThetaS g)"
  have len: "int (length ?xs) = nrows g * ncols g"
    using load_Inr(4) [OF assms] by (rule length_flatten_shape)
  have nn: "0 \<le> nrows g" "0 \<le> ncols g"
    using load_Inr(2,3) [OF assms] by simp_all
  show "DfSuperCats g = Inr (split_rows (nat (nrows g)) (nat (ncols g)) (SuperCats ?xs))"
    using len nn by (simp add: DfSuperCats_def flatten_all_def reshape_def length_SuperCats)
  have "int (length ?xs) = int (nat (nrows g) * nat (ncols g))"
    using len nn by simp
  then have "length (SuperCats ?xs) = nat (nrows g) * nat (ncols g)"
    unfolding length_SuperCats by (simp only: of_nat_eq_iff)
  then show "concat (split_rows (nat (nrows g)) (nat (ncols g)) (SuperCats ?xs)) = SuperCats ?xs"
    by (rule concat_split_rows)
qed

lemma SuperCats_unique_eq:
  "SuperCats_unique g = map (\<lambda>i. PyInt (int i)) [0..<card (set (flatten (DfVG_ThetaS g)))]"
  by (simp add: SuperCats_unique_def flatten_all_def unique_SuperCats)

lemma length_SuperCats_unique:
  "length (SuperCats_unique g) = card (set (flatten (DfVG_ThetaS g)))"
  by (simp add: SuperCats_unique_eq)

lemma set_Series_first:
  "set_Series DataFrame name vals = \<lparr>index_len = length vals, columns = [(name, vals)]\<rparr>"
  by (simp add: set_Series_def DataFrame_def)

lemma set_Series_aligned:
  assumes "columns df \<noteq> []" and "length vals = index_len df"
  shows "set_Series df name vals = df\<lparr>columns := columns df @ [(name, vals)]\<rparr>"
proof -
  have "map (\<lambda>i. if i < length vals then vals ! i else PyNone) [0..<length vals] = vals"
    by (rule nth_equalityI) simp_all
  then show ?thesis using assms by (simp add: set_Series_def)
qed


lemma DfSuperDetails_eq:
  "DfSuperDetails g =
     \<lparr>index_len = length (SuperCats_unique g),
      columns = [(''<SoilDetails>'', replicate (length (SuperCats_unique g)) (PyStr ''<SoilDetail>'')),
                 (''SuperCats'', SuperCats_unique g),
                 (''SoilLayer'', replicate (length (SuperCats_unique g)) (PyInt 1)),
                 (''SoilType'', SuperCats_unique g),
                 (''Depth[m]'', replicate (length (SuperCats_unique g)) (PyFloat 2.0)),
                 (''</SoilDetails>'', replicate (length (SuperCats_unique g)) (PyStr ''</SoilDetail>''))]\<rparr>"
  by (simp add: DfSuperDetails_def Let_def set_Series_first set_Series_aligned set_scalar_def
      Series_const_def)

lemma length_VG_SuperThetaS: "length (VG_SuperThetaS g) = length (SuperCats_unique g)"
  by (simp add: VG_SuperThetaS_def length_unique length_SuperCats_unique)

lemma DfSoilSuperProperties_eq:
  "DfSoilSuperProperties g =
     (if length (VG_SuperThetaR g) = length (SuperCats_unique g) \<and>
         length (VG_SuperKsat g) = length (SuperCats_unique g) \<and>
         length (VG_SuperAlpha g) = length (SuperCats_unique g) \<and>
         length (VG_SuperN g) = length (SuperCats_unique g)
      then Inr (properties_frame g) else Inl ValueError)"
  by (simp add: DfSoilSuperProperties_def Let_def set_Series_first set_Series_aligned set_scalar_def
      set_array_def Series_const_def and_then_def length_VG_SuperThetaS properties_frame_def)


lemma path_distinct:
  "SuperCats_path \<noteq> SoilProperties_path" "SuperCats_path \<noteq> SoilDetails_path"
  "SoilProperties_path \<noteq> SoilDetails_path"
  by (simp_all add: SuperCats_path_def SoilProperties_path_def SoilDetails_path_def
      DirectoryOut_def SuperCatsOut_def SoilPropertiesOut_def SoilDetailsOut_def)

lemma map_nth_upt: "map (\<lambda>i. xs ! i) [0..<length xs] = xs"
  by (rule nth_equalityI) simp_all

lemma details_file:
  "frame_file s (DfSuperDetails g) =
     \<lparr>sep = s,
      header = Some [''<SoilDetails>'', ''SuperCats'', ''SoilLayer'', ''SoilType'', ''Depth[m]'', ''</SoilDetails>''],
      rows = map (\<lambda>i. [PyStr ''<SoilDetail>'', PyInt (int i), PyInt 1, PyInt (int i), PyFloat 2.0,
                        PyStr ''</SoilDetail>''])
               [0..<card (set (flatten (DfVG_ThetaS g)))]\<rparr>"
  by (simp add: frame_file_def DfSuperDetails_eq length_SuperCats_unique)
     (simp add: SuperCats_unique_eq)

lemma properties_file:
  "header (frame_file s (properties_frame g)) =
     Some [''SoilProperty'', ''SuperCats'', ''SoilType'', ''VG_ThetaS'', ''VG_ThetaR'', ''VG_Ksat'',
           ''VG_alpha'', ''VG_n'', ''</SoilProperty>'']"
  "length (rows (frame_file s (properties_frame g))) = card (set (flatten (DfVG_ThetaS g)))"
  "column (frame_file s (properties_frame g)) ''SuperCats'' = SuperCats_unique g"
  "length (VG_SuperKsat g) = length (SuperCats_unique g) \<Longrightarrow>
     column (frame_file s (properties_frame g)) ''VG_Ksat'' = VG_SuperKsat g"
proof -
  show "header (frame_file s (properties_frame g)) =
     Some [''SoilProperty'', ''SuperCats'', ''SoilType'', ''VG_ThetaS'', ''VG_ThetaR'', ''VG_Ksat'',
           ''VG_alpha'', ''VG_n'', ''</SoilProperty>'']"
    by (simp add: frame_file_def properties_frame_def)
  show "length (rows (frame_file s (properties_frame g))) = card (set (flatten (DfVG_ThetaS g)))"
    by (simp add: frame_file_def properties_frame_def length_SuperCats_unique)
  show "column (frame_file s (properties_frame g)) ''SuperCats'' = SuperCats_unique g"
    by (simp add: column_def frame_file_def properties_frame_def o_def map_nth_upt)
  show "column (frame_file s (properties_frame g)) ''VG_Ksat'' = VG_SuperKsat g"
    if "length (VG_SuperKsat g) = length (SuperCats_unique g)"
    using map_nth_upt [of "VG_SuperKsat g"] that
    by (simp add: column_def frame_file_def properties_frame_def o_def)
qed

lemma details_column:
  "column (frame_file s (DfSuperDetails g)) ''SuperCats'' = SuperCats_unique g"
  by (simp add: column_def details_file o_def SuperCats_unique_eq)

lemma run_loaded:
  assumes "load e = Inr g"
  shows "run e out0 =
    (if \<not> writable e SuperCats_path then (Some OSError, out0)
     else if DfSoilSuperProperties g \<noteq> Inr (properties_frame g)
       then (Some ValueError,
             out0(SuperCats_path \<mapsto> grid_file '' '' (split_rows (nat (nrows g)) (nat (ncols g))
                                                      (SuperCats (flatten (DfVG_ThetaS g))))))
     else if \<not> writable e SoilProperties_path
       then (Some OSError,
             out0(SuperCats_path \<mapsto> grid_file '' '' (split_rows (nat (nrows g)) (nat (ncols g))
                                                      (SuperCats (flatten (DfVG_ThetaS g))))))
     else if \<not> writable e SoilDetails_path
       then (Some OSError,
             out0(SuperCats_path \<mapsto> grid_file '' '' (split_rows (nat (nrows g)) (nat (ncols g))
                                                      (SuperCats (flatten (DfVG_ThetaS g)))),
                  SoilProperties_path \<mapsto> frame_file '','' (properties_frame g)))
     else (None,
             out0(SuperCats_path \<mapsto> grid_file '' '' (split_rows (nat (nrows g)) (nat (ncols g))
                                                      (SuperCats (flatten (DfVG_ThetaS g)))),
                  SoilProperties_path \<mapsto> frame_file '','' (properties_frame g),
                  SoilDetails_path \<mapsto> frame_file '','' (DfSuperDetails g))))"
  by (simp add: run_def assms DfSuperCats_loaded(1) [OF assms] to_csv_def DfSoilSuperProperties_eq)

lemma run_not_loaded: "load e = Inl x \<Longrightarrow> run e out0 = (Some x, out0)"
  by (simp add: run_def)

subsection \<open>The example inputs evaluated\<close>

lemma count_list_distinct: "distinct xs \<Longrightarrow> x \<in> set xs \<Longrightarrow> count_list xs x = 1"
  by (induction xs) auto

lemma load_env_of:
  assumes "0 \<le> nrows g" "0 \<le> ncols g"
    and "has_shape (DfVG_ThetaS g) (nrows g) (ncols g)"
    and "has_shape (DfVG_ThetaR g) (nrows g) (ncols g)"
    and "has_shape (DfVG_Ksat g) (nrows g) (ncols g)"
    and "has_shape (DfVG_Alpha g) (nrows g) (ncols g)"
    and "has_shape (DfVG_N g) (nrows g) (ncols g)"
  shows "load (env_of g) = Inr g"
  using assms
  by (simp add: load_def env_of_def getitem_def and_then_def scan_header_def DfSubCats_def
      ASCtoDfParam_def)

lemma example_loads: "load (env_of example_grids) = Inr example_grids"
  by (rule load_env_of) (simp_all add: example_grids_def has_shape_def)

lemma mismatch_loads: "load (env_of mismatch_grids) = Inr mismatch_grids"
  by (rule load_env_of) (simp_all add: mismatch_grids_def example_grids_def has_shape_def)

lemma example_uniques:
  "SuperCats_unique example_grids = [PyInt 0, PyInt 1]"
  "VG_SuperThetaR example_grids = [PyFloat 0.05, PyFloat 0.06]"
  "VG_SuperKsat example_grids = [PyFloat 100, PyFloat 250]"
  "VG_SuperAlpha example_grids = [PyFloat 0.02, PyFloat 0.03]"
  "VG_SuperN example_grids = [PyFloat 1.5, PyFloat 1.6]"
  "card (set (flatten (DfVG_ThetaS example_grids))) = 2"
proof -
  have "length (unique (flatten (DfVG_ThetaS example_grids))) = 2"
    by (simp add: example_grids_def flatten_def unique_def)
  then show "card (set (flatten (DfVG_ThetaS example_grids))) = 2"
    by (simp only: length_unique)
  then show "SuperCats_unique example_grids = [PyInt 0, PyInt 1]"
    by (simp add: SuperCats_unique_eq eval_nat_numeral)
qed (simp_all add: VG_SuperThetaR_def VG_SuperKsat_def VG_SuperAlpha_def VG_SuperN_def
       example_grids_def flatten_def unique_def)

lemma example_writable: "writable (env_of g) p"
  by (simp add: env_of_def)

lemma example_properties: "DfSoilSuperProperties example_grids = Inr (properties_frame example_grids)"
  by (simp add: DfSoilSuperProperties_eq example_uniques)

lemma example_run:
  "run (env_of example_grids) out0 =
     (None, out0(SuperCats_path \<mapsto> grid_file '' '' [[PyInt 0, PyInt 0], [PyInt 1, PyInt 0]],
                 SoilProperties_path \<mapsto> frame_file '','' (properties_frame example_grids),
                 SoilDetails_path \<mapsto> frame_file '','' (DfSuperDetails example_grids)))"
proof -
  have "DfSuperCats example_grids = Inr [[PyInt 0, PyInt 0], [PyInt 1, PyInt 0]]"
    by (simp add: example_grids_def DfSuperCats_def flatten_all_def flatten_def reshape_def SuperCats_def
        VG_ThetaS_unique_dict_def unique_def to_dict_def dict_get_def eval_nat_numeral)
  then have "split_rows (nat (nrows example_grids)) (nat (ncols example_grids))
               (SuperCats (flatten (DfVG_ThetaS example_grids))) = [[PyInt 0, PyInt 0], [PyInt 1, PyInt 0]]"
    using DfSuperCats_loaded(1) [OF example_loads] by simp
  then show ?thesis
    by (simp add: run_loaded [OF example_loads] example_writable example_properties)
qed

subsection \<open>Successful runs\<close>

lemma run_success:
  assumes "run e out0 = (None, out')"
  shows "\<exists>g. load e = Inr g \<and>
           out' = out0(SuperCats_path \<mapsto> grid_file '' '' (split_rows (nat (nrows g)) (nat (ncols g))
                                                      (SuperCats (flatten (DfVG_ThetaS g)))),
                       SoilProperties_path \<mapsto> frame_file '','' (properties_frame g),
                       SoilDetails_path \<mapsto> frame_file '','' (DfSuperDetails g))"
proof (cases "load e")
  case (Inl x)
  then show ?thesis using assms by (simp add: run_not_loaded)
next
  case (Inr g)
  then show ?thesis using assms by (auto simp: run_loaded [OF Inr] split: if_splits)
qed

lemma map_cells:
  assumes "load e = Inr g"
  shows "set (concat (rows (grid_file s (split_rows (nat (nrows g)) (nat (ncols g))
                                         (SuperCats (flatten (DfVG_ThetaS g)))))))
         = set (SuperCats_unique g)"
    and "card (set (SuperCats_unique g)) = card (set (flatten (DfVG_ThetaS g)))"
    and "distinct (SuperCats_unique g)"
proof -
  show "set (concat (rows (grid_file s (split_rows (nat (nrows g)) (nat (ncols g))
                                         (SuperCats (flatten (DfVG_ThetaS g)))))))
         = set (SuperCats_unique g)"
    by (simp add: grid_file_def DfSuperCats_loaded(2) [OF assms] SuperCats_unique_def
        flatten_all_def set_unique)
  show d: "distinct (SuperCats_unique g)"
    by (simp add: SuperCats_unique_def distinct_unique)
  show "card (set (SuperCats_unique g)) = card (set (flatten (DfVG_ThetaS g)))"
    using distinct_card [OF d] by (simp add: length_SuperCats_unique)
qed

text \<open>
  C9. After a successful run the Soil Details file is comma-delimited, its header line is
  \<open><SoilDetails>,SuperCats,SoilLayer,SoilType,Depth[m],</SoilDetails>\<close>, and every data row
  is \<open><SoilDetail>\<close>, a Supercategory ID, the layer 1, the same ID as SoilType, the depth
  2.0 and \<open></SoilDetail>\<close>.
\<close>

theorem SoilDetails_file_format:
  assumes "run e out0 = (None, out')"
  shows "\<exists>d. out' SoilDetails_path = Some d \<and> sep d = '','' \<and>
           header_line d = Some ''<SoilDetails>,SuperCats,SoilLayer,SoilType,Depth[m],</SoilDetails>'' \<and>
           column d ''SoilType'' = column d ''SuperCats'' \<and>
           (\<forall>row \<in> set (rows d). \<exists>n. row =
              [PyStr ''<SoilDetail>'', PyInt n, PyInt 1, PyInt n, PyFloat 2.0, PyStr ''</SoilDetail>''])"
proof -
  obtain g where out: "out' SoilDetails_path = Some (frame_file '','' (DfSuperDetails g))"
    using run_success [OF assms] by auto
  let ?d = "frame_file '','' (DfSuperDetails g)"
  have "sep ?d = '',''" by (simp add: details_file)
  moreover have "header_line ?d = Some ''<SoilDetails>,SuperCats,SoilLayer,SoilType,Depth[m],</SoilDetails>''"
    by (simp add: header_line_def details_file)
  moreover have "column ?d ''SoilType'' = column ?d ''SuperCats''"
    by (simp add: column_def details_file)
  moreover have "\<forall>row \<in> set (rows ?d). \<exists>n. row =
              [PyStr ''<SoilDetail>'', PyInt n, PyInt 1, PyInt n, PyFloat 2.0, PyStr ''</SoilDetail>'']"
    by (auto simp: details_file)
  ultimately show ?thesis using out by blast
qed

theorem SoilDetails_file_format_witness:
  "run (env_of example_grids) no_files = (None, snd (run (env_of example_grids) no_files)) \<and>
   map_option header_line (snd (run (env_of example_grids) no_files) SoilDetails_path)
     = Some (Some ''<SoilDetails>,SuperCats,SoilLayer,SoilType,Depth[m],</SoilDetails>'') \<and>
   map_option rows (snd (run (env_of example_grids) no_files) SoilDetails_path)
     = Some [[PyStr ''<SoilDetail>'', PyInt 0, PyInt 1, PyInt 0, PyFloat 2.0, PyStr ''</SoilDetail>''],
             [PyStr ''<SoilDetail>'', PyInt 1, PyInt 1, PyInt 1, PyFloat 2.0, PyStr ''</SoilDetail>'']]"
proof -
  have h: "run (env_of example_grids) no_files = (None, snd (run (env_of example_grids) no_files))"
    by (simp add: example_run)
  have r: "rows (frame_file '','' (DfSuperDetails example_grids))
     = [[PyStr ''<SoilDetail>'', PyInt 0, PyInt 1, PyInt 0, PyFloat 2.0, PyStr ''</SoilDetail>''],
        [PyStr ''<SoilDetail>'', PyInt 1, PyInt 1, PyInt 1, PyFloat 2.0, PyStr ''</SoilDetail>'']]"
    by (simp add: details_file example_uniques eval_nat_numeral)
  show ?thesis
    using SoilDetails_file_format [OF h] h r
    by (auto simp: example_run)
qed


text \<open>
  C6. After a successful run the number of distinct values in the Supercategory Map is the
  number of data rows of the Soil Properties table and of the Soil Details table; both
  tables list the IDs \<open>0, 1, ...\<close> in ascending order in their \<open>SuperCats\<close> column, and
  every ID of the map occurs exactly once in each of the two columns.
\<close>

theorem tables_consistent_with_map:
  assumes "run e out0 = (None, out')"
  shows "\<exists>m p d. out' SuperCats_path = Some m \<and> out' SoilProperties_path = Some p \<and>
           out' SoilDetails_path = Some d \<and>
           length (rows p) = card (set (concat (rows m))) \<and>
           length (rows d) = card (set (concat (rows m))) \<and>
           column p ''SuperCats'' = map (\<lambda>i. PyInt (int i)) [0..<card (set (concat (rows m)))] \<and>
           column d ''SuperCats'' = map (\<lambda>i. PyInt (int i)) [0..<card (set (concat (rows m)))] \<and>
           (\<forall>v \<in> set (concat (rows m)).
               count_list (column p ''SuperCats'') v = 1 \<and> count_list (column d ''SuperCats'') v = 1)"
proof -
  obtain g where g: "load e = Inr g"
    and out: "out' = out0(SuperCats_path \<mapsto> grid_file '' '' (split_rows (nat (nrows g)) (nat (ncols g))
                                                      (SuperCats (flatten (DfVG_ThetaS g)))),
                       SoilProperties_path \<mapsto> frame_file '','' (properties_frame g),
                       SoilDetails_path \<mapsto> frame_file '','' (DfSuperDetails g))"
    using run_success [OF assms] by blast
  let ?m = "grid_file '' '' (split_rows (nat (nrows g)) (nat (ncols g)) (SuperCats (flatten (DfVG_ThetaS g))))"
  let ?p = "frame_file '','' (properties_frame g)"
  let ?d = "frame_file '','' (DfSuperDetails g)"
  let ?k = "card (set (flatten (DfVG_ThetaS g)))"
  have m: "out' SuperCats_path = Some ?m" and p: "out' SoilProperties_path = Some ?p"
    and d: "out' SoilDetails_path = Some ?d"
    using path_distinct by (simp_all add: out)
  have cells: "set (concat (rows ?m)) = set (SuperCats_unique g)"
    by (rule map_cells(1) [OF g])
  have k: "card (set (concat (rows ?m))) = ?k"
    unfolding cells by (rule map_cells(2) [OF g])
  have lp: "length (rows ?p) = ?k" by (rule properties_file(2))
  have ld: "length (rows ?d) = ?k" by (simp add: details_file)
  have cp: "column ?p ''SuperCats'' = SuperCats_unique g" by (rule properties_file(3))
  have cd: "column ?d ''SuperCats'' = SuperCats_unique g" by (rule details_column)
  have once: "count_list (SuperCats_unique g) v = 1" if "v \<in> set (concat (rows ?m))" for v
    using that map_cells(3) [OF g] unfolding cells by (intro count_list_distinct)
  have ids: "SuperCats_unique g = map (\<lambda>i. PyInt (int i)) [0..<?k]"
    by (rule SuperCats_unique_eq)
  have "out' SuperCats_path = Some ?m \<and> out' SoilProperties_path = Some ?p \<and>
           out' SoilDetails_path = Some ?d \<and>
           length (rows ?p) = card (set (concat (rows ?m))) \<and>
           length (rows ?d) = card (set (concat (rows ?m))) \<and>
           column ?p ''SuperCats'' = map (\<lambda>i. PyInt (int i)) [0..<card (set (concat (rows ?m)))] \<and>
           column ?d ''SuperCats'' = map (\<lambda>i. PyInt (int i)) [0..<card (set (concat (rows ?m)))] \<and>
           (\<forall>v \<in> set (concat (rows ?m)).
               count_list (column ?p ''SuperCats'') v = 1 \<and> count_list (column ?d ''SuperCats'') v = 1)"
    unfolding k cp cd using m p d lp ld ids once by blast
  then show ?thesis by blast
qed

theorem tables_consistent_with_map_witness:
  "run (env_of example_grids) no_files = (None, snd (run (env_of example_grids) no_files)) \<and>
   map_option rows (snd (run (env_of example_grids) no_files) SuperCats_path)
     = Some [[PyInt 0, PyInt 0], [PyInt 1, PyInt 0]] \<and>
   file_column (snd (run (env_of example_grids) no_files)) SoilProperties_path ''SuperCats''
     = Some [PyInt 0, PyInt 1] \<and>
   file_column (snd (run (env_of example_grids) no_files)) SoilDetails_path ''SuperCats''
     = Some [PyInt 0, PyInt 1]"
proof -
  have h: "run (env_of example_grids) no_files = (None, snd (run (env_of example_grids) no_files))"
    by (simp add: example_run)
  have c: "column (frame_file '','' (properties_frame example_grids)) ''SuperCats'' = [PyInt 0, PyInt 1]"
    "column (frame_file '','' (DfSuperDetails example_grids)) ''SuperCats'' = [PyInt 0, PyInt 1]"
    by (simp_all add: properties_file(3) details_column example_uniques)
  show ?thesis
    using tables_consistent_with_map [OF h] h c path_distinct
    by (simp add: example_run file_column_def grid_file_def)
qed


subsection \<open>Runs that fail\<close>

lemma mismatch_properties: "DfSoilSuperProperties mismatch_grids = Inl ValueError"
proof -
  have "length (unique (flatten (DfVG_ThetaR mismatch_grids))) = 3"
    by (simp add: mismatch_grids_def example_grids_def flatten_def unique_def)
  moreover have "length (unique (flatten (DfVG_ThetaS mismatch_grids))) = 2"
    by (simp add: mismatch_grids_def example_grids_def flatten_def unique_def)
  ultimately show ?thesis
    by (simp add: DfSoilSuperProperties_eq VG_SuperThetaR_def length_SuperCats_unique
        length_unique [symmetric])
qed

lemma mismatch_run:
  "run (env_of mismatch_grids) out0 =
     (Some ValueError, out0(SuperCats_path \<mapsto> grid_file '' '' [[PyInt 0, PyInt 0], [PyInt 1, PyInt 0]]))"
proof -
  have "DfSuperCats mismatch_grids = Inr [[PyInt 0, PyInt 0], [PyInt 1, PyInt 0]]"
    by (simp add: mismatch_grids_def example_grids_def DfSuperCats_def flatten_all_def flatten_def
        reshape_def SuperCats_def VG_ThetaS_unique_dict_def unique_def to_dict_def dict_get_def
        eval_nat_numeral)
  then have "split_rows (nat (nrows mismatch_grids)) (nat (ncols mismatch_grids))
               (SuperCats (flatten (DfVG_ThetaS mismatch_grids))) = [[PyInt 0, PyInt 0], [PyInt 1, PyInt 0]]"
    using DfSuperCats_loaded(1) [OF mismatch_loads] by simp
  then show ?thesis
    by (simp add: run_loaded [OF mismatch_loads] example_writable mismatch_properties)
qed

text \<open>
  C10. When the five grids are loaded and one of \<open>VG_ThetaR\<close>, \<open>VG_Ksat\<close>, \<open>VG_Alpha\<close>,
  \<open>VG_N\<close> has a number of distinct values different from that of \<open>VG_ThetaS\<close>, building
  the Soil Properties frame raises ValueError, the run ends with an error (this ValueError,
  unless the write of the map already failed), and neither the Soil Properties file nor
  the Soil Details file is written.
\<close>

theorem mismatched_unique_counts_fail:
  assumes "load e = Inr g"
    and "length (unique (flatten (DfVG_ThetaR g))) \<noteq> length (unique (flatten (DfVG_ThetaS g))) \<or>
         length (unique (flatten (DfVG_Ksat g))) \<noteq> length (unique (flatten (DfVG_ThetaS g))) \<or>
         length (unique (flatten (DfVG_Alpha g))) \<noteq> length (unique (flatten (DfVG_ThetaS g))) \<or>
         length (unique (flatten (DfVG_N g))) \<noteq> length (unique (flatten (DfVG_ThetaS g)))"
  shows "DfSoilSuperProperties g = Inl ValueError \<and>
         fst (run e out0) = Some (if writable e SuperCats_path then ValueError else OSError) \<and>
         snd (run e out0) SoilProperties_path = out0 SoilProperties_path \<and>
         snd (run e out0) SoilDetails_path = out0 SoilDetails_path"
proof -
  have k: "length (SuperCats_unique g) = length (unique (flatten (DfVG_ThetaS g)))"
    by (simp add: length_SuperCats_unique length_unique)
  have f: "DfSoilSuperProperties g = Inl ValueError"
    using assms(2)
    by (auto simp: DfSoilSuperProperties_eq k VG_SuperThetaR_def VG_SuperKsat_def VG_SuperAlpha_def
        VG_SuperN_def)
  then show ?thesis
    using path_distinct by (simp add: run_loaded [OF assms(1)])
qed

theorem mismatched_unique_counts_fail_witness:
  "load (env_of mismatch_grids) = Inr mismatch_grids \<and>
   length (unique (flatten (DfVG_ThetaR mismatch_grids))) = 3 \<and>
   length (unique (flatten (DfVG_ThetaS mismatch_grids))) = 2 \<and>
   DfSoilSuperProperties mismatch_grids = Inl ValueError \<and>
   fst (run (env_of mismatch_grids) no_files) = Some ValueError \<and>
   snd (run (env_of mismatch_grids) no_files) SoilProperties_path = None \<and>
   snd (run (env_of mismatch_grids) no_files) SoilDetails_path = None"
proof -
  have a: "length (unique (flatten (DfVG_ThetaR mismatch_grids))) = 3"
    by (simp add: mismatch_grids_def example_grids_def flatten_def unique_def)
  have b: "length (unique (flatten (DfVG_ThetaS mismatch_grids))) = 2"
    by (simp add: mismatch_grids_def example_grids_def flatten_def unique_def)
  have c: "length (unique (flatten (DfVG_ThetaR mismatch_grids))) \<noteq> length (unique (flatten (DfVG_ThetaS mismatch_grids))) \<or>
         length (unique (flatten (DfVG_Ksat mismatch_grids))) \<noteq> length (unique (flatten (DfVG_ThetaS mismatch_grids))) \<or>
         length (unique (flatten (DfVG_Alpha mismatch_grids))) \<noteq> length (unique (flatten (DfVG_ThetaS mismatch_grids))) \<or>
         length (unique (flatten (DfVG_N mismatch_grids))) \<noteq> length (unique (flatten (DfVG_ThetaS mismatch_grids)))"
    using a b by simp
  show ?thesis
    using mismatched_unique_counts_fail [OF mismatch_loads c, of no_files] a b mismatch_loads
    by (simp add: example_writable no_files_def)
qed


lemma details_locked_loads: "load details_locked_env = Inr example_grids"
proof -
  have "load details_locked_env = load (env_of example_grids)"
    by (simp add: load_def details_locked_env_def ASCtoDfParam_def)
  then show ?thesis by (simp add: example_loads)
qed

lemma details_locked_run:
  "run details_locked_env out0 =
     (Some OSError,
      out0(SuperCats_path \<mapsto> grid_file '' '' [[PyInt 0, PyInt 0], [PyInt 1, PyInt 0]],
           SoilProperties_path \<mapsto> frame_file '','' (properties_frame example_grids)))"
proof -
  have "DfSuperCats example_grids = Inr [[PyInt 0, PyInt 0], [PyInt 1, PyInt 0]]"
    by (simp add: example_grids_def DfSuperCats_def flatten_all_def flatten_def reshape_def SuperCats_def
        VG_ThetaS_unique_dict_def unique_def to_dict_def dict_get_def eval_nat_numeral)
  then have "split_rows (nat (nrows example_grids)) (nat (ncols example_grids))
               (SuperCats (flatten (DfVG_ThetaS example_grids))) = [[PyInt 0, PyInt 0], [PyInt 1, PyInt 0]]"
    using DfSuperCats_loaded(1) [OF example_loads] by simp
  moreover have "writable details_locked_env SuperCats_path"
    "writable details_locked_env SoilProperties_path" "\<not> writable details_locked_env SoilDetails_path"
    using path_distinct by (simp_all add: details_locked_env_def)
  ultimately show ?thesis
    by (simp add: run_loaded [OF details_locked_loads] example_properties)
qed

lemma raised_not_configuration: "raised s \<noteq> ConfigurationError"
  by (cases s) simp_all

lemma short_list_cases:
  assumes "length xs < 5"
  obtains "xs = []" | a where "xs = [a]" | a b where "xs = [a, b]"
    | a b c where "xs = [a, b, c]" | a b c d where "xs = [a, b, c, d]"
proof (cases xs)
  case Nil
  then show ?thesis using that(1) by simp
next
  case c1: (Cons a t1)
  show ?thesis
  proof (cases t1)
    case Nil
    then show ?thesis using that(2) c1 by simp
  next
    case c2: (Cons b t2)
    show ?thesis
    proof (cases t2)
      case Nil
      then show ?thesis using that(3) c1 c2 by simp
    next
      case c3: (Cons c t3)
      show ?thesis
      proof (cases t3)
        case Nil
        then show ?thesis using that(4) c1 c2 c3 by simp
      next
        case c4: (Cons d t4)
        then have "t4 = []" using assms c1 c2 c3 by simp
        then show ?thesis using that(5) c1 c2 c3 c4 by simp
      qed
    qed
  qed
qed

lemma load_few_files_error:
  assumes "length (PathList e) < 5"
  shows "load e = Inl
           (if PathList e = [] then IndexError
            else case header_scan (asc e (PathList e ! 0)) of
                   Inl s \<Rightarrow> raised s
                 | Inr (Ncols, Nrows) \<Rightarrow>
                     if Nrows < 0 \<or> Ncols < 0 then ValueError
                     else if list_all (\<lambda>p. has_shape (raster (asc e p)) Nrows Ncols) (PathList e)
                          then IndexError else FormatError)"
  using assms
proof (cases "PathList e" rule: short_list_cases)
  case 1
  then show ?thesis by (simp add: load_no_files)
next
  case (2 a)
  then show ?thesis
    by (simp add: load_def getitem_def and_then_def scan_header_def DfSubCats_def ASCtoDfParam_def
        Let_def split: sum.splits prod.splits)
next
  case (3 a b)
  then show ?thesis
    by (simp add: load_def getitem_def and_then_def scan_header_def DfSubCats_def ASCtoDfParam_def
        Let_def split: sum.splits prod.splits)
next
  case (4 a b c)
  then show ?thesis
    by (simp add: load_def getitem_def and_then_def scan_header_def DfSubCats_def ASCtoDfParam_def
        Let_def split: sum.splits prod.splits)
next
  case (5 a b c d)
  then show ?thesis
    by (simp add: load_def getitem_def and_then_def scan_header_def DfSubCats_def ASCtoDfParam_def
        Let_def split: sum.splits prod.splits)
qed

text \<open>
  C5, as stated: a failed run leaves the set of output files as it was before the run. The
  script has no staging of its writes: with mismatching unique counts the run fails after the
  Supercategory Map has been written and before the two tables are.
\<close>

theorem partial_outputs_counterexample:
  "fst (run (env_of mismatch_grids) no_files) = Some ValueError \<and>
   no_files SuperCats_path = None \<and>
   snd (run (env_of mismatch_grids) no_files) SuperCats_path
     = Some \<lparr>sep = '' '', header = None, rows = [[PyInt 0, PyInt 0], [PyInt 1, PyInt 0]]\<rparr> \<and>
   snd (run (env_of mismatch_grids) no_files) SoilProperties_path = None \<and>
   snd (run (env_of mismatch_grids) no_files) SoilDetails_path = None \<and>
   snd (run (env_of mismatch_grids) no_files) \<noteq> no_files"
proof -
  have "snd (run (env_of mismatch_grids) no_files) SuperCats_path \<noteq> no_files SuperCats_path"
    by (simp add: mismatch_run no_files_def)
  then have "snd (run (env_of mismatch_grids) no_files) \<noteq> no_files" by metis
  then show ?thesis
    using path_distinct by (simp add: mismatch_run no_files_def grid_file_def)
qed

text \<open>
  C5, amended. A failed run leaves the output files in one of three states. When the
  failure lies in loading (locating the files, the header scan, the subcategory grid, the
  raster reader) or in the write of the Supercategory Map, every output file is as before
  the run. When the failure is the ValueError of building the Soil Properties frame or the
  write of the Soil Properties file, the Supercategory Map has been written and nothing else
  has changed. When the failure is the write of the Soil Details file, the Supercategory
  Map and the Soil Properties file have been written. A failed run never writes the Soil
  Details file and changes no file other than the first two.
\<close>

theorem failed_run_outputs:
  assumes "fst (run e out0) = Some x"
  shows "((((\<exists>y. load e = Inl y) \<or> \<not> writable e SuperCats_path) \<and> snd (run e out0) = out0) \<or>
          (\<exists>g m. load e = Inr g \<and> DfSuperCats g = Inr m \<and> writable e SuperCats_path \<and>
                 (DfSoilSuperProperties g = Inl ValueError \<or> \<not> writable e SoilProperties_path) \<and>
                 snd (run e out0) = out0(SuperCats_path \<mapsto> grid_file '' '' m)) \<or>
          (\<exists>g m p. load e = Inr g \<and> DfSuperCats g = Inr m \<and> DfSoilSuperProperties g = Inr p \<and>
                 writable e SuperCats_path \<and> writable e SoilProperties_path \<and>
                 \<not> writable e SoilDetails_path \<and> x = OSError \<and>
                 snd (run e out0) = out0(SuperCats_path \<mapsto> grid_file '' '' m,
                                         SoilProperties_path \<mapsto> frame_file '','' p))) \<and>
         snd (run e out0) SoilDetails_path = out0 SoilDetails_path \<and>
         (\<forall>p. p \<noteq> SuperCats_path \<and> p \<noteq> SoilProperties_path \<longrightarrow> snd (run e out0) p = out0 p)"
proof (cases "load e")
  case (Inl y)
  then show ?thesis by (simp add: run_not_loaded)
next
  case (Inr g)
  note m = DfSuperCats_loaded(1) [OF Inr]
  show ?thesis
  proof (cases "writable e SuperCats_path")
    case False
    then show ?thesis by (simp add: run_loaded [OF Inr])
  next
    case w1: True
    show ?thesis
    proof (cases "DfSoilSuperProperties g = Inr (properties_frame g) \<and> writable e SoilProperties_path")
      case False
      then have "DfSoilSuperProperties g = Inl ValueError \<or> \<not> writable e SoilProperties_path"
        by (auto simp: DfSoilSuperProperties_eq split: if_splits)
      moreover have "snd (run e out0) = out0(SuperCats_path \<mapsto> grid_file '' ''
            (split_rows (nat (nrows g)) (nat (ncols g)) (SuperCats (flatten (DfVG_ThetaS g)))))"
        using False w1 by (auto simp: run_loaded [OF Inr])
      ultimately show ?thesis
        using Inr m w1 path_distinct by auto
    next
      case True
      then have p: "DfSoilSuperProperties g = Inr (properties_frame g)"
        and w2: "writable e SoilProperties_path" by simp_all
      have w3: "\<not> writable e SoilDetails_path"
        using assms w1 w2 p by (auto simp: run_loaded [OF Inr] split: if_splits)
      have r: "run e out0 = (Some OSError,
             out0(SuperCats_path \<mapsto> grid_file '' '' (split_rows (nat (nrows g)) (nat (ncols g))
                                                      (SuperCats (flatten (DfVG_ThetaS g)))),
                  SoilProperties_path \<mapsto> frame_file '','' (properties_frame g)))"
        using w1 w2 w3 p by (simp add: run_loaded [OF Inr])
      then have "x = OSError" using assms by simp
      then show ?thesis
        using Inr m w1 w2 w3 p r path_distinct by auto
    qed
  qed
qed

theorem failed_run_outputs_witness:
  "fst (run two_files_env no_files) = Some IndexError \<and>
   load two_files_env = Inl IndexError \<and>
   snd (run two_files_env no_files) = no_files \<and>
   fst (run (env_of mismatch_grids) no_files) = Some ValueError \<and>
   load (env_of mismatch_grids) = Inr mismatch_grids \<and>
   DfSoilSuperProperties mismatch_grids = Inl ValueError \<and>
   snd (run (env_of mismatch_grids) no_files)
     = no_files(SuperCats_path \<mapsto> grid_file '' '' [[PyInt 0, PyInt 0], [PyInt 1, PyInt 0]]) \<and>
   fst (run details_locked_env no_files) = Some OSError \<and>
   load details_locked_env = Inr example_grids \<and>
   writable details_locked_env SoilDetails_path = False \<and>
   snd (run details_locked_env no_files)
     = no_files(SuperCats_path \<mapsto> grid_file '' '' [[PyInt 0, PyInt 0], [PyInt 1, PyInt 0]],
                SoilProperties_path \<mapsto> frame_file '','' (properties_frame example_grids)) \<and>
   snd (run details_locked_env no_files) SoilDetails_path = no_files SoilDetails_path"
proof -
  have l: "load two_files_env = Inl IndexError"
    by (simp add: two_files_env_def env_of_def example_grids_def load_def getitem_def and_then_def
        scan_header_def DfSubCats_def ASCtoDfParam_def has_shape_def)
  then have h1: "fst (run two_files_env no_files) = Some IndexError"
    by (simp add: run_not_loaded)
  have h2: "fst (run (env_of mismatch_grids) no_files) = Some ValueError"
    by (simp add: mismatch_run)
  have h3: "fst (run details_locked_env no_files) = Some OSError"
    by (simp add: details_locked_run)
  have w: "writable details_locked_env SoilDetails_path = False"
    by (simp add: details_locked_env_def)
  show ?thesis
    using failed_run_outputs [OF h1] failed_run_outputs [OF h2] failed_run_outputs [OF h3]
      l h1 h2 h3 w mismatch_loads mismatch_properties details_locked_loads
    by (simp add: run_not_loaded mismatch_run details_locked_run)
qed

text \<open>
  C7, as stated: with fewer than five matching files the run fails with a ConfigurationError.
  The script has no such exception: with no matching file, \<open>PathList[0]\<close> raises IndexError.
\<close>

theorem few_files_counterexample:
  "length (PathList no_match_env) < 5 \<and>
   fst (run no_match_env no_files) = Some IndexError \<and>
   fst (run no_match_env no_files) \<noteq> Some ConfigurationError"
proof -
  have "load no_match_env = Inl IndexError"
    by (rule load_no_files) (simp add: no_match_env_def)
  then show ?thesis by (simp add: run_not_loaded no_match_env_def)
qed

text \<open>
  C7, amended. With fewer than five matching files the run fails before anything is written
  and every output file is as it was. The exception is never a ConfigurationError. It is
  IndexError when no file matches. With one to four files it is the exception of the header
  scan when that fails; else the ValueError of \<open>np.zeros\<close> when a dimension is negative;
  else the FormatError of the raster reader when a matching file has not the shape the
  header gives; and the IndexError of indexing \<open>PathList\<close> otherwise.
\<close>

theorem few_files_fail:
  assumes "length (PathList e) < 5"
  shows "snd (run e out0) = out0 \<and>
         fst (run e out0) = Some
           (if PathList e = [] then IndexError
            else case header_scan (asc e (PathList e ! 0)) of
                   Inl s \<Rightarrow> raised s
                 | Inr (Ncols, Nrows) \<Rightarrow>
                     if Nrows < 0 \<or> Ncols < 0 then ValueError
                     else if list_all (\<lambda>p. has_shape (raster (asc e p)) Nrows Ncols) (PathList e)
                          then IndexError else FormatError) \<and>
         fst (run e out0) \<noteq> Some ConfigurationError"
proof -
  note l = load_few_files_error [OF assms]
  have "snd (run e out0) = out0" by (simp add: run_not_loaded [OF l])
  moreover have f: "fst (run e out0) = Some
           (if PathList e = [] then IndexError
            else case header_scan (asc e (PathList e ! 0)) of
                   Inl s \<Rightarrow> raised s
                 | Inr (Ncols, Nrows) \<Rightarrow>
                     if Nrows < 0 \<or> Ncols < 0 then ValueError
                     else if list_all (\<lambda>p. has_shape (raster (asc e p)) Nrows Ncols) (PathList e)
                          then IndexError else FormatError)"
    by (simp add: run_not_loaded [OF l])
  moreover have "fst (run e out0) \<noteq> Some ConfigurationError"
    unfolding f by (simp add: raised_not_configuration split: sum.splits prod.splits)
  ultimately show ?thesis by blast
qed

theorem few_files_fail_witness:
  "length (PathList two_files_env) < 5 \<and>
   header_scan (asc two_files_env (PathList two_files_env ! 0)) = Inr (2, 2) \<and>
   snd (run two_files_env no_files) = no_files \<and>
   fst (run two_files_env no_files) = Some IndexError"
proof -
  have n: "length (PathList two_files_env) < 5"
    by (simp add: two_files_env_def)
  have h: "header_scan (asc two_files_env (PathList two_files_env ! 0)) = Inr (2, 2)"
    by (simp add: two_files_env_def env_of_def example_grids_def)
  have s: "list_all (\<lambda>p. has_shape (raster (asc two_files_env p)) 2 2) (PathList two_files_env)"
    by (simp add: two_files_env_def env_of_def example_grids_def has_shape_def)
  have p: "PathList two_files_env \<noteq> []"
    by (simp add: two_files_env_def)
  show ?thesis
    using few_files_fail [OF n, of no_files] n h s p by simp
qed

subsection \<open>The Ksat column\<close>

text \<open>On every successful run the column holds the unique values of the grid as loaded.\<close>

lemma Ksat_column_raw:
  assumes "run e out0 = (None, out')"
  shows "\<exists>g. load e = Inr g \<and>
           file_column out' SoilProperties_path ''VG_Ksat''
             = Some (map PyFloat (unique (flatten (DfVG_Ksat g))))"
proof -
  obtain g where g: "load e = Inr g"
    and out: "out' = out0(SuperCats_path \<mapsto> grid_file '' '' (split_rows (nat (nrows g)) (nat (ncols g))
                                                      (SuperCats (flatten (DfVG_ThetaS g)))),
                       SoilProperties_path \<mapsto> frame_file '','' (properties_frame g),
                       SoilDetails_path \<mapsto> frame_file '','' (DfSuperDetails g))"
    using run_success [OF assms] by blast
  have "DfSoilSuperProperties g = Inr (properties_frame g)"
    using assms by (auto simp: run_loaded [OF g] split: if_splits)
  then have "length (VG_SuperKsat g) = length (SuperCats_unique g)"
    by (auto simp: DfSoilSuperProperties_eq split: if_splits)
  then have "column (frame_file '','' (properties_frame g)) ''VG_Ksat'' = VG_SuperKsat g"
    by (rule properties_file(4))
  then show ?thesis
    using g path_distinct by (auto simp: out file_column_def VG_SuperKsat_def)
qed

text \<open>
  C2. The claim is that the \<open>VG_Ksat\<close> column of the Soil Properties table holds the
  converted values. On the example grids the run succeeds, the converted Series of line 120
  holds 1 and 2.5 (m/day), and the column written to the file holds the raw 100 and 250
  (cm/day): line 160 takes the unique values of \<open>DfVG_Ksat\<close>, not of the converted Series.
\<close>

theorem Ksat_column_not_converted:
  "fst (run (env_of example_grids) no_files) = None \<and>
   DfVG_Ksat example_grids = [[100, 100], [250, 100]] \<and>
   VG_Ksat (flatten_all example_grids) = [1, 1, 2.5, 1] \<and>
   file_column (snd (run (env_of example_grids) no_files)) SoilProperties_path ''VG_Ksat''
     = Some [PyFloat 100, PyFloat 250]"
proof -
  have "column (frame_file '','' (properties_frame example_grids)) ''VG_Ksat'' = [PyFloat 100, PyFloat 250]"
    by (simp add: properties_file(4) example_uniques)
  moreover have "VG_Ksat (flatten_all example_grids) = [1, 1, 2.5, 1]"
    using cm_to_m_100 cm_to_m_250
    by (simp add: flatten_all_def flatten_def Series_apply_def example_grids_def)
  moreover have "DfVG_Ksat example_grids = [[100, 100], [250, 100]]"
    by (simp add: example_grids_def)
  ultimately show ?thesis
    using path_distinct by (simp add: example_run file_column_def)
qed

end
